theory Spec2Isabelle
  imports Main "HOL-Library.Log_Nat"
begin

section \<open>Python values\<close>

text \<open>
  A Python \<open>str\<close> is a \<open>string\<close>: one \<open>char\<close> per character, the character
  being named by its windows-1252 byte. For U+0000..U+007F and U+00A0..U+00FF the byte is
  the code point itself; the legacy endpoints are decoded from windows-1252, so every
  legacy text is covered. Characters outside windows-1252 (possible only in JSON
  payloads) are not represented.

  A Python \<open>float\<close> is \<open>Finite q\<close> for the binary64 value \<open>q\<close>, an infinity or
  NaN; the sign of zero is not represented.

  \<open>json\<close> is the Python value that \<open>json.loads\<close> can return and, more generally,
  the value stored in a sensor record: \<open>None\<close>, \<open>bool\<close>, \<open>int\<close>, \<open>float\<close>,
  \<open>str\<close>, \<open>list\<close>, \<open>dict\<close>. A dict is an association list in insertion order;
  the first pair of a key is its entry.
\<close>

datatype pyfloat = Finite rat | PosInf | NegInf | NaN

datatype json =
    JNull
  | JBool bool
  | JInt int
  | JFloat pyfloat
  | JStr string
  | JArr "json list"
  | JObj "(string \<times> json) list"

datatype py_error =
    UpdateFailed string
  | ValueError
  | TypeError
  | AttributeError
  | KeyError
  | OverflowError

text \<open>\<open>try: r except ValueError: d\<close>\<close>

definition except_ValueError :: "py_error + 'a \<Rightarrow> 'a \<Rightarrow> py_error + 'a" where
  "except_ValueError r d = (case r of Inl ValueError \<Rightarrow> Inr d | _ \<Rightarrow> r)"

definition and_then :: "'e + 'a \<Rightarrow> ('a \<Rightarrow> 'e + 'b) \<Rightarrow> 'e + 'b" where
  "and_then r f = (case r of Inl e \<Rightarrow> Inl e | Inr x \<Rightarrow> f x)"

subsection \<open>Non-ASCII characters of the source's literals\<close>

abbreviation e_acute :: char where "e_acute \<equiv> CHR 0xE9"
abbreviation e_grave :: char where "e_grave \<equiv> CHR 0xE8"
abbreviation a_grave :: char where "a_grave \<equiv> CHR 0xE0"
abbreviation E_acute :: char where "E_acute \<equiv> CHR 0xC9"
abbreviation E_circ :: char where "E_circ \<equiv> CHR 0xCA"
abbreviation degree :: char where "degree \<equiv> CHR 0xB0"

definition degC :: string where
  "degC = [degree, CHR ''C'']"

subsection \<open>\<open>str\<close> methods\<close>

text \<open>\<open>str.isspace\<close> on one character: TAB..CR, FS..US, space, NBSP.\<close>

definition is_space :: "char \<Rightarrow> bool" where
  "is_space c = (let n = (of_char c :: int) in (9 \<le> n \<and> n \<le> 13) \<or> (28 \<le> n \<and> n \<le> 32) \<or> n = 160)"

definition py_strip :: "string \<Rightarrow> string" where
  "py_strip s = rev (dropWhile is_space (rev (dropWhile is_space s)))"

text \<open>
  \<open>str.lower\<close> on one character: A..Z, the Latin-1 capitals (not the multiplication
  sign 0xD7), and the four capitals of the 0x80..0x9F block (S and Z with caron, OE, Y with
  diaeresis).
\<close>

definition lower_char :: "char \<Rightarrow> char" where
  "lower_char c = (let n = (of_char c :: int) in
     if (65 \<le> n \<and> n \<le> 90) \<or> (192 \<le> n \<and> n \<le> 222 \<and> n \<noteq> 215) then char_of (n + 32)
     else if n = 138 \<or> n = 140 \<or> n = 142 then char_of (n + 16)
     else if n = 159 then char_of (255 :: int)
     else c)"

definition py_lower :: "string \<Rightarrow> string" where
  "py_lower s = map lower_char s"

text \<open>\<open>s.split(sep)\<close> for a one-character separator: never the empty list.\<close>

fun py_split :: "char \<Rightarrow> string \<Rightarrow> string list" where
  "py_split sep [] = [[]]"
| "py_split sep (c # cs) =
     (if c = sep then [] # py_split sep cs
      else (case py_split sep cs of [] \<Rightarrow> [[c]] | w # ws \<Rightarrow> (c # w) # ws))"

text \<open>\<open>sub in s\<close> for two strings.\<close>

fun starts_with :: "string \<Rightarrow> string \<Rightarrow> bool" where
  "starts_with [] s = True"
| "starts_with (p # ps) [] = False"
| "starts_with (p # ps) (c # cs) = (p = c \<and> starts_with ps cs)"

fun str_contains :: "string \<Rightarrow> string \<Rightarrow> bool" where
  "str_contains sub [] = (sub = [])"
| "str_contains sub (c # cs) = (starts_with sub (c # cs) \<or> str_contains sub cs)"

text \<open>\<open>str(n)\<close> for an \<open>int\<close>.\<close>

function str_nat :: "int \<Rightarrow> string" where
  "str_nat n = (if n < 10 then [''0123456789'' ! nat n]
                else str_nat (n div 10) @ [''0123456789'' ! nat (n mod 10)])"
  by pat_completeness auto
termination
  by (relation "measure nat") auto

definition str_int :: "int \<Rightarrow> string" where
  "str_int i = (if i < 0 then CHR ''-'' # str_nat (- i) else str_nat i)"

subsection \<open>\<open>float(s)\<close> and \<open>int(x)\<close>\<close>

definition is_digit :: "char \<Rightarrow> bool" where
  "is_digit c = (48 \<le> (of_char c :: int) \<and> (of_char c :: int) \<le> 57)"

definition digit_val :: "char \<Rightarrow> int" where
  "digit_val c = of_char c - 48"

definition int_of_digits :: "string \<Rightarrow> int" where
  "int_of_digits ds = foldl (\<lambda>n c. 10 * n + digit_val c) 0 ds"

text \<open>
  Underscores: each must stand between two digits; they are removed. The first argument
  is the previous character.
\<close>

fun drop_underscores :: "char \<Rightarrow> string \<Rightarrow> string option" where
  "drop_underscores prev [] = (if prev = CHR ''_'' then None else Some [])"
| "drop_underscores prev (c # cs) =
     (if c = CHR ''_'' then
        (if is_digit prev then drop_underscores c cs else None)
      else if prev = CHR ''_'' \<and> \<not> is_digit c then None
      else map_option (\<lambda>r. c # r) (drop_underscores c cs))"

text \<open>
  The decimal literal \<open>[digits][.digits][(e|E)[sign]digits]\<close> with at least one digit
  before the exponent: the result \<open>(m, e)\<close> stands for \<open>m * 10 ^ e\<close>.
\<close>

definition parse_decimal :: "string \<Rightarrow> (int \<times> int) option" where
  "parse_decimal s =
     (let ip = takeWhile is_digit s;
          r1 = dropWhile is_digit s;
          (fp, r2) = (case r1 of
                        [] \<Rightarrow> ([], [])
                      | c # r \<Rightarrow> if c = CHR ''.'' then (takeWhile is_digit r, dropWhile is_digit r)
                                 else ([], r1))
      in if ip @ fp = [] then None
         else (case r2 of
                 [] \<Rightarrow> Some (int_of_digits (ip @ fp), - int (length fp))
               | c # r \<Rightarrow>
                   if c = CHR ''e'' \<or> c = CHR ''E'' then
                     (let (eneg, ed) = (case r of
                                          [] \<Rightarrow> (False, [])
                                        | x # r' \<Rightarrow> if x = CHR ''-'' then (True, r')
                                                   else if x = CHR ''+'' then (False, r')
                                                   else (False, r))
                      in if ed \<noteq> [] \<and> list_all is_digit ed then
                           Some (int_of_digits (ip @ fp),
                                 (if eneg then - int_of_digits ed else int_of_digits ed)
                                   - int (length fp))
                         else None)
                   else None))"

text \<open>Rounding the quotient \<open>n / d\<close> to the nearest integer, ties to even.\<close>

definition round_half_even :: "int \<Rightarrow> int \<Rightarrow> int" where
  "round_half_even n d =
     (let q = n div d; r = n mod d
      in if 2 * r < d then q else if d < 2 * r then q + 1 else if even q then q else q + 1)"

text \<open>The integer \<open>k\<close> with \<open>2 ^ k \<le> n / d < 2 ^ (k + 1)\<close>, for positive \<open>n\<close> and \<open>d\<close>.\<close>

definition floor_log2 :: "int \<Rightarrow> int \<Rightarrow> int" where
  "floor_log2 n d =
     (let k = bitlen n - bitlen d
      in if (if 0 \<le> k then 2 ^ nat k * d \<le> n else d \<le> n * 2 ^ nat (- k)) then k else k - 1)"

text \<open>
  The binary64 value nearest to \<open>n / d\<close> (53 significant bits, least exponent -1022,
  ties to even), an infinity from \<open>2 ^ 1024\<close> on.
\<close>

definition binary64 :: "bool \<Rightarrow> int \<Rightarrow> int \<Rightarrow> pyfloat" where
  "binary64 neg n d =
     (if n = 0 then Finite 0
      else
        let s = max (floor_log2 n d) (- 1022) - 52;
            m = (if 0 \<le> s then round_half_even n (d * 2 ^ nat s)
                 else round_half_even (n * 2 ^ nat (- s)) d)
        in if 0 \<le> s \<and> (2 :: int) ^ 1024 \<le> m * 2 ^ nat s then (if neg then NegInf else PosInf)
           else Finite ((if neg then - 1 else 1) * of_int m
                          * (if 0 \<le> s then 2 ^ nat s else 1 / 2 ^ nat (- s))))"

text \<open>
  \<open>float(s)\<close> for a \<open>str\<close>: surrounding whitespace is dropped, underscores are
  checked and removed, then comes an optional sign and \<open>inf\<close>, \<open>infinity\<close>,
  \<open>nan\<close> (in any case) or a decimal literal. Anything else is a \<open>ValueError\<close>.
\<close>

definition float_space :: "char \<Rightarrow> bool" where
  "float_space c = (let n = (of_char c :: int) in (9 \<le> n \<and> n \<le> 13) \<or> n = 32 \<or> n = 160)"

definition py_float :: "string \<Rightarrow> py_error + pyfloat" where
  "py_float s =
     (case drop_underscores (CHR 0x00) (rev (dropWhile float_space (rev (dropWhile float_space s)))) of
        None \<Rightarrow> Inl ValueError
      | Some t \<Rightarrow>
          (let (neg, body) = (case t of
                                [] \<Rightarrow> (False, [])
                              | c # r \<Rightarrow> if c = CHR ''-'' then (True, r)
                                         else if c = CHR ''+'' then (False, r)
                                         else (False, t));
               low = py_lower body
           in if low = ''inf'' \<or> low = ''infinity'' then Inr (if neg then NegInf else PosInf)
              else if low = ''nan'' then Inr NaN
              else (case parse_decimal body of
                      None \<Rightarrow> Inl ValueError
                    | Some (m, e) \<Rightarrow>
                        Inr (if 0 \<le> e then binary64 neg (m * 10 ^ nat e) 1
                             else binary64 neg m (10 ^ nat (- e))))))"

text \<open>
  \<open>int(x)\<close> for a \<open>float\<close>: truncation towards zero; \<open>OverflowError\<close> for an
  infinity, \<open>ValueError\<close> for NaN.
\<close>

definition py_int :: "pyfloat \<Rightarrow> py_error + int" where
  "py_int x = (case x of
                 Finite q \<Rightarrow> Inr (if 0 \<le> q then \<lfloor>q\<rfloor> else \<lceil>q\<rceil>)
               | NaN \<Rightarrow> Inl ValueError
               | PosInf \<Rightarrow> Inl OverflowError
               | NegInf \<Rightarrow> Inl OverflowError)"


section \<open>Dictionaries\<close>

text \<open>\<open>d[k] = v\<close>: the entry of an existing key is replaced in place, a new key goes last.\<close>

fun dict_set :: "'k \<Rightarrow> 'v \<Rightarrow> ('k \<times> 'v) list \<Rightarrow> ('k \<times> 'v) list" where
  "dict_set k v [] = [(k, v)]"
| "dict_set k v (p # ps) = (if fst p = k then (k, v) # ps else p # dict_set k v ps)"

text \<open>\<open>k in d\<close>; the entry of \<open>k\<close> is \<open>map_of d k\<close>.\<close>

definition dict_has :: "'k \<Rightarrow> ('k \<times> 'v) list \<Rightarrow> bool" where
  "dict_has k d = (map_of d k \<noteq> None)"

section \<open>Operations on JSON values\<close>

text \<open>
  The status payload is whatever JSON the device sends; the client applies \<open>in\<close>,
  subscription, \<open>.get\<close>, \<open>len\<close>, iteration and truth testing to it without
  checking its shape, so each is modelled on every kind of value, with the exception
  Python raises.
\<close>

fun truthy :: "json \<Rightarrow> bool" where
  "truthy JNull = False"
| "truthy (JBool b) = b"
| "truthy (JInt i) = (i \<noteq> 0)"
| "truthy (JFloat x) = (x \<noteq> Finite 0)"
| "truthy (JStr s) = (s \<noteq> [])"
| "truthy (JArr xs) = (xs \<noteq> [])"
| "truthy (JObj kvs) = (kvs \<noteq> [])"

text \<open>\<open>key in x\<close>\<close>

fun py_in :: "string \<Rightarrow> json \<Rightarrow> py_error + bool" where
  "py_in key (JObj kvs) = Inr (dict_has key kvs)"
| "py_in key (JArr xs) = Inr (JStr key \<in> set xs)"
| "py_in key (JStr s) = Inr (str_contains key s)"
| "py_in key x = Inl TypeError"

text \<open>\<open>x[key]\<close> for a \<open>str\<close> key\<close>

fun py_getitem :: "json \<Rightarrow> string \<Rightarrow> py_error + json" where
  "py_getitem (JObj kvs) key = (case map_of kvs key of None \<Rightarrow> Inl KeyError | Some v \<Rightarrow> Inr v)"
| "py_getitem x key = Inl TypeError"

text \<open>\<open>x.get(key, default)\<close>\<close>

fun py_get :: "json \<Rightarrow> string \<Rightarrow> json \<Rightarrow> py_error + json" where
  "py_get (JObj kvs) key dflt = Inr (case map_of kvs key of None \<Rightarrow> dflt | Some v \<Rightarrow> v)"
| "py_get x key dflt = Inl AttributeError"

text \<open>\<open>len(x)\<close>\<close>

fun py_len :: "json \<Rightarrow> py_error + int" where
  "py_len (JArr xs) = Inr (int (length xs))"
| "py_len (JObj kvs) = Inr (int (length (remdups (map fst kvs))))"
| "py_len (JStr s) = Inr (int (length s))"
| "py_len x = Inl TypeError"

text \<open>The elements that \<open>for ... in enumerate(x)\<close> visits, with their indices.\<close>

fun py_iter :: "json \<Rightarrow> py_error + json list" where
  "py_iter (JArr xs) = Inr xs"
| "py_iter (JObj kvs) = Inr (map JStr (remdups (map fst kvs)))"
| "py_iter (JStr s) = Inr (map (\<lambda>c. JStr [c]) s)"
| "py_iter x = Inl TypeError"

definition enumerate_from0 :: "'a list \<Rightarrow> (int \<times> 'a) list" where
  "enumerate_from0 xs = zip (map int [0 ..< length xs]) xs"

text \<open>
  \<open>str(x)\<close>, which is also what an f-string puts for \<open>{x}\<close>. The text of a float
  and of a container is left to the parameter \<open>repr\<close>.
\<close>

definition py_format :: "(json \<Rightarrow> string) \<Rightarrow> json \<Rightarrow> string" where
  "py_format repr x =
     (case x of
        JStr s \<Rightarrow> s
      | JInt i \<Rightarrow> str_int i
      | JBool b \<Rightarrow> (if b then ''True'' else ''False'')
      | JNull \<Rightarrow> ''None''
      | _ \<Rightarrow> repr x)"

text \<open>Statements run in order; the first exception ends the run.\<close>

fun seq_steps :: "('s \<Rightarrow> 'e + 's) list \<Rightarrow> 's \<Rightarrow> 'e + 's" where
  "seq_steps [] s = Inr s"
| "seq_steps (f # fs) s = (case f s of Inl e \<Rightarrow> Inl e | Inr s' \<Rightarrow> seq_steps fs s')"

section \<open>The device's HTTP interface\<close>

text \<open>
  A request is the URL and the query parameters of a GET. The device answers with a
  transport failure (the exception's text) or a status code and a body. Reading a body
  as JSON (\<open>resp.json\<close>) or as text (\<open>resp.text\<close>) gives a value or raises (the
  exception's text).
\<close>

type_synonym request = "string \<times> (string \<times> string) list"

datatype body = Body (body_json: "string + json") (body_text: "string + string")

datatype response = TransportError string | Response int body

type_synonym device = "request \<Rightarrow> response"

section \<open>The API client\<close>

text \<open>
  A sensor record is \<open>[value, unit]\<close>; a snapshot is the dict from keys to records.
\<close>

type_synonym sensor = "json \<times> string option"
type_synonym snapshot = "(string \<times> sensor) list"

record biostar =
  api_key :: string
  host :: string
  write_key :: "string option"
  device_info :: json
  heating_circuits :: json
  heat_constraints :: json

definition default_constraints :: json where
  "default_constraints =
     JObj [(''min'', JFloat (Finite 15)), (''max'', JFloat (Finite 30)), (''inc'', JFloat (Finite (1 / 2)))]"

text \<open>\<open>Biostar.__init__\<close>\<close>

definition init :: "string \<Rightarrow> string \<Rightarrow> string option \<Rightarrow> biostar" where
  "init key h wkey =
     \<lparr> api_key = key, host = h, write_key = wkey,
       device_info = JNull, heating_circuits = JArr [], heat_constraints = default_constraints \<rparr>"

definition url :: "biostar \<Rightarrow> string \<Rightarrow> string" where
  "url self path = ''http://'' @ host self @ path"

subsection \<open>\<open>_async_get_status_data\<close>\<close>

definition async_get_status_data :: "biostar \<Rightarrow> device \<Rightarrow> json option" where
  "async_get_status_data self dev =
     (case dev (url self ''/status.cgi'', [(''key'', api_key self)]) of
        TransportError m \<Rightarrow> None
      | Response code b \<Rightarrow>
          if code = 200 then (case body_json b of Inl m \<Rightarrow> None | Inr data \<Rightarrow> Some data)
          else None)"

subsection \<open>\<open>_async_get_legacy_data\<close>\<close>

definition true_tokens :: "string list" where
  "true_tokens = [''AN'', ''ON'', ''MARCHE'']"

definition false_tokens :: "string list" where
  "false_tokens = [''AUS'', ''OFF'', ''ARR'' @ [E_circ] @ ''T'']"

definition reserved_keys :: "string list" where
  "reserved_keys = [''reserved'', ''r'' @ [e_acute] @ ''serv'' @ [e_acute], ''reserviert'']"

text \<open>The value of one line, from the stripped raw value and the unit (lines 138 to 154).\<close>

definition coerce_value :: "string \<Rightarrow> string option \<Rightarrow> py_error + json" where
  "coerce_value raw_value unitOfMeasurement =
     (if raw_value \<in> set true_tokens then Inr (JBool True)
      else if raw_value \<in> set false_tokens then Inr (JBool False)
      else if unitOfMeasurement \<in> set [Some degC, Some ''%''] then
        except_ValueError (and_then (py_float raw_value) (\<lambda>x. Inr (JFloat x))) (JStr raw_value)
      else if unitOfMeasurement \<in> set [Some ''d'', Some ''h''] then
        except_ValueError
          (and_then (py_float raw_value) (\<lambda>x. and_then (py_int x) (\<lambda>n. Inr (JInt n))))
          (JStr raw_value)
      else Inr (JStr raw_value))"

text \<open>
  \<open>key, unitOfMeasurement = line.split(";")\<close>: \<open>None\<close> is the \<open>ValueError\<close> of
  the unpacking.
\<close>

definition split_description :: "string \<Rightarrow> (string \<times> string) option" where
  "split_description line =
     (case py_split (CHR '';'') line of [k, u] \<Rightarrow> Some (k, u) | _ \<Rightarrow> None)"

text \<open>The body of the loop for one index, on the description line and the value line.\<close>

definition legacy_entry :: "string \<Rightarrow> string \<Rightarrow> snapshot \<Rightarrow> py_error + snapshot" where
  "legacy_entry desc val data =
     (case split_description desc of
        None \<Rightarrow> Inr data
      | Some (key, u) \<Rightarrow>
          if py_lower key \<in> set reserved_keys then Inr data
          else
            (let unitOfMeasurement = (if py_strip u = [] then None else Some (py_strip u));
                 raw_value = py_strip val
             in and_then (coerce_value raw_value unitOfMeasurement)
                  (\<lambda>dataValue. Inr (dict_set key (dataValue, unitOfMeasurement) data))))"

text \<open>\<open>for i in range(...)\<close>, over the list of the indices still to come.\<close>

fun legacy_loop :: "string list \<Rightarrow> string list \<Rightarrow> nat list \<Rightarrow> snapshot \<Rightarrow> py_error + snapshot" where
  "legacy_loop dataDescription dataValues [] data = Inr data"
| "legacy_loop dataDescription dataValues (i # rest) data =
     (case legacy_entry (dataDescription ! i) (dataValues ! i) data of
        Inl e \<Rightarrow> Inl e
      | Inr data' \<Rightarrow> legacy_loop dataDescription dataValues rest data')"

definition parse_legacy :: "string list \<Rightarrow> string list \<Rightarrow> py_error + snapshot" where
  "parse_legacy dataDescription dataValues =
     (if dataDescription \<noteq> [] \<and> dataValues \<noteq> [] then
        legacy_loop dataDescription dataValues
          [0 ..< min (length dataDescription) (length dataValues)] []
      else Inr [])"

text \<open>\<open>text.split("\n")[0:-1]\<close>\<close>

definition legacy_lines :: "string \<Rightarrow> string list" where
  "legacy_lines text = butlast (py_split (CHR 0x0A) text)"

text \<open>One pass of the fetch loop, for the endpoint \<open>API\<close>.\<close>

definition fetch_legacy :: "biostar \<Rightarrow> device \<Rightarrow> string \<Rightarrow> py_error + string list" where
  "fetch_legacy self dev API =
     (case dev (url self API, [(''key'', api_key self)]) of
        TransportError m \<Rightarrow> Inl (UpdateFailed (''Failed to fetch from legacy API: '' @ m))
      | Response code b \<Rightarrow>
          if code \<noteq> 200 then
            Inl (UpdateFailed (''Legacy API '' @ API @ '' returned '' @ str_int code))
          else (case body_text b of
                  Inl m \<Rightarrow> Inl (UpdateFailed (''Failed to fetch from legacy API: '' @ m))
                | Inr text \<Rightarrow> Inr (legacy_lines text)))"

definition async_get_legacy_data :: "biostar \<Rightarrow> device \<Rightarrow> py_error + snapshot" where
  "async_get_legacy_data self dev =
     and_then (fetch_legacy self dev ''/daqdesc.cgi'') (\<lambda>dataDescription.
     and_then (fetch_legacy self dev ''/daqdata.cgi'') (\<lambda>dataValues.
       parse_legacy dataDescription dataValues))"


subsection \<open>\<open>_parse_status_data\<close>\<close>

text \<open>\<open>if field in data: result[key] = [data[field], unit]\<close>\<close>

definition store_field :: "json \<Rightarrow> string \<Rightarrow> string \<Rightarrow> string option \<Rightarrow> snapshot \<Rightarrow> py_error + snapshot" where
  "store_field data field key u result =
     and_then (py_in field data) (\<lambda>present.
       if present then and_then (py_getitem data field) (\<lambda>v. Inr (dict_set key (v, u) result))
       else Inr result)"

text \<open>The statements under \<open>if "meta" in data:\<close>, for \<open>meta = data["meta"]\<close>.\<close>

definition meta_steps :: "json \<Rightarrow> (snapshot \<Rightarrow> py_error + snapshot) list" where
  "meta_steps meta =
     [store_field meta ''sw_version'' ''_Version firmware'' None,
      store_field meta ''sn'' (''_Num'' @ [e_acute] @ ''ro de s'' @ [e_acute] @ ''rie'') None,
      store_field meta ''typ'' (''_Mod'' @ [e_grave] @ ''le'') None,
      store_field meta ''language'' ''_Langue'' None]"

definition store_meta :: "json \<Rightarrow> snapshot \<Rightarrow> py_error + snapshot" where
  "store_meta data result =
     and_then (py_in ''meta'' data) (\<lambda>present.
       if present then
         and_then (py_getitem data ''meta'') (\<lambda>meta. seq_steps (meta_steps meta) result)
       else Inr result)"

text \<open>The body of the loop over \<open>heat_circ\<close>, after \<open>prefix\<close> is known.\<close>

definition heat_circuit_steps :: "string \<Rightarrow> json \<Rightarrow> (snapshot \<Rightarrow> py_error + snapshot) list" where
  "heat_circuit_steps prefix circuit =
     [store_field circuit ''day_temp'' (prefix @ '' - Temp jour'') (Some degC),
      store_field circuit ''night_temp'' (prefix @ '' - Temp nuit'') (Some degC),
      store_field circuit ''mode'' (prefix @ '' - Mode'') None]"

fun heat_circ_loop :: "(json \<Rightarrow> string) \<Rightarrow> (int \<times> json) list \<Rightarrow> snapshot \<Rightarrow> py_error + snapshot" where
  "heat_circ_loop repr [] result = Inr result"
| "heat_circ_loop repr ((i, circuit) # rest) result =
     and_then (py_get circuit ''name'' (JInt i)) (\<lambda>name.
       and_then (seq_steps (heat_circuit_steps (''_Circuit '' @ py_format repr name) circuit) result)
         (heat_circ_loop repr rest))"

text \<open>The body of the loop over \<open>water_circ\<close>, after \<open>prefix\<close> is known.\<close>

definition water_circuit_steps :: "string \<Rightarrow> json \<Rightarrow> (snapshot \<Rightarrow> py_error + snapshot) list" where
  "water_circuit_steps prefix circuit =
     [store_field circuit ''temp'' (prefix @ '' - Temp'') (Some degC),
      store_field circuit ''mode'' (prefix @ '' - Mode'') None]"

fun water_circ_loop :: "(json \<Rightarrow> string) \<Rightarrow> (int \<times> json) list \<Rightarrow> snapshot \<Rightarrow> py_error + snapshot" where
  "water_circ_loop repr [] result = Inr result"
| "water_circ_loop repr ((i, circuit) # rest) result =
     and_then (py_get circuit ''name'' (JInt i)) (\<lambda>name.
       and_then (seq_steps (water_circuit_steps (''_ECS '' @ py_format repr name) circuit) result)
         (water_circ_loop repr rest))"

fun error_loop :: "(json \<Rightarrow> string) \<Rightarrow> (int \<times> json) list \<Rightarrow> snapshot \<Rightarrow> snapshot" where
  "error_loop repr [] result = result"
| "error_loop repr ((i, error) # rest) result =
     error_loop repr rest (dict_set (''_Erreur '' @ str_int i) (JStr (py_format repr error), None) result)"

text \<open>\<open>if field in data: for i, circuit in enumerate(data[field]): ...\<close>\<close>

definition store_circuits ::
  "json \<Rightarrow> string \<Rightarrow> ((int \<times> json) list \<Rightarrow> snapshot \<Rightarrow> py_error + snapshot) \<Rightarrow> snapshot \<Rightarrow> py_error + snapshot" where
  "store_circuits data field loop result =
     and_then (py_in field data) (\<lambda>present.
       if present then
         and_then (py_getitem data field) (\<lambda>circuits.
         and_then (py_iter circuits) (\<lambda>cs. loop (enumerate_from0 cs) result))
       else Inr result)"

definition store_errors :: "(json \<Rightarrow> string) \<Rightarrow> json \<Rightarrow> snapshot \<Rightarrow> py_error + snapshot" where
  "store_errors repr data result =
     and_then (py_in ''error'' data) (\<lambda>present.
       if present then
         and_then (py_getitem data ''error'') (\<lambda>errors.
           if truthy errors then
             and_then (py_len errors) (\<lambda>n.
             and_then (py_iter errors) (\<lambda>es.
               Inr (error_loop repr (enumerate_from0 es)
                      (dict_set ''_Erreurs actives'' (JInt n, None) result))))
           else Inr result)
       else Inr result)"

text \<open>The statements of \<open>_parse_status_data\<close>, in order.\<close>

definition status_steps :: "(json \<Rightarrow> string) \<Rightarrow> json \<Rightarrow> (snapshot \<Rightarrow> py_error + snapshot) list" where
  "status_steps repr data =
     [store_field data ''temp'' (''_Temp'' @ [e_acute] @ ''rature chaudi'' @ [e_grave] @ ''re'') (Some degC),
      store_field data ''ext_temp'' (''_Temp'' @ [e_acute] @ ''rature ext'' @ [e_acute] @ ''rieure'') (Some degC),
      store_field data ''co2'' ''_CO2'' (Some ''%''),
      store_field data ''fumes'' (''_Fum'' @ [e_acute] @ ''es'') (Some ''%''),
      store_field data ''fuel'' ''_Combustible'' (Some ''%''),
      store_field data ''cleaning_in'' ''_Nettoyage dans'' (Some ''h''),
      store_field data ''state'' (''_'' @ [E_acute] @ ''tat'') None,
      store_field data ''mode'' ''_Mode'' None,
      store_field data ''name'' ''_Nom'' None,
      store_field data ''timestamp'' (''_Derni'' @ [e_grave] @ ''re mise '' @ [a_grave] @ '' jour'') None,
      store_meta data,
      store_circuits data ''heat_circ'' (heat_circ_loop repr),
      store_circuits data ''water_circ'' (water_circ_loop repr),
      store_errors repr data]"

definition parse_status_data :: "(json \<Rightarrow> string) \<Rightarrow> json \<Rightarrow> py_error + snapshot" where
  "parse_status_data repr data = seq_steps (status_steps repr data) []"

subsection \<open>\<open>_async_get_data\<close>\<close>

text \<open>\<open>if field in status_data: self.<attribute> = status_data[field]\<close>\<close>

definition cache_field :: "json \<Rightarrow> string \<Rightarrow> (json \<Rightarrow> biostar \<Rightarrow> biostar) \<Rightarrow> biostar \<Rightarrow> py_error + biostar" where
  "cache_field status_data field assign self =
     and_then (py_in field status_data) (\<lambda>present.
       if present then and_then (py_getitem status_data field) (\<lambda>v. Inr (assign v self))
       else Inr self)"

text \<open>
  Attribute assignments run in order; an exception keeps the assignments made before it.
\<close>

fun run_cache :: "(biostar \<Rightarrow> py_error + biostar) list \<Rightarrow> biostar \<Rightarrow> py_error option \<times> biostar" where
  "run_cache [] self = (None, self)"
| "run_cache (f # fs) self = (case f self of Inl e \<Rightarrow> (Some e, self) | Inr self' \<Rightarrow> run_cache fs self')"

text \<open>The three attribute assignments under \<open>if status_data:\<close>.\<close>

definition cache_steps :: "json \<Rightarrow> (biostar \<Rightarrow> py_error + biostar) list" where
  "cache_steps status_data =
     [cache_field status_data ''meta'' (\<lambda>v s. s\<lparr>device_info := v\<rparr>),
      cache_field status_data ''heat_circ'' (\<lambda>v s. s\<lparr>heating_circuits := v\<rparr>),
      cache_field status_data ''heat_constraints'' (\<lambda>v s. s\<lparr>heat_constraints := v\<rparr>)]"

text \<open>The body of \<open>if status_data:\<close>\<close>

definition use_status_data :: "(json \<Rightarrow> string) \<Rightarrow> json \<Rightarrow> biostar \<Rightarrow> (py_error + snapshot) \<times> biostar" where
  "use_status_data repr status_data self =
     (case run_cache (cache_steps status_data) self of
        (Some e, self') \<Rightarrow> (Inl e, self')
      | (None, self') \<Rightarrow> (parse_status_data repr status_data, self'))"

text \<open>\<open>for key, value in legacy_data.items(): if key not in result: result[key] = value\<close>\<close>

fun merge_legacy :: "snapshot \<Rightarrow> snapshot \<Rightarrow> snapshot" where
  "merge_legacy [] result = result"
| "merge_legacy ((key, v) # rest) result =
     merge_legacy rest (if \<not> dict_has key result then dict_set key v result else result)"

text \<open>
  Step 2 of the refresh: the legacy fetch inside \<open>try ... except UpdateFailed\<close>, given
  the snapshot \<open>result\<close> of step 1.
\<close>

definition merge_step :: "py_error + snapshot \<Rightarrow> snapshot \<Rightarrow> py_error + snapshot" where
  "merge_step legacy result =
     (case legacy of
        Inr legacy_data \<Rightarrow> Inr (merge_legacy legacy_data result)
      | Inl (UpdateFailed m) \<Rightarrow> if result = [] then Inl (UpdateFailed m) else Inr result
      | Inl e \<Rightarrow> Inl e)"

text \<open>
  Step 1 of the refresh: the snapshot derived from the status payload (empty when there
  is none or it is falsy) and the client afterwards.
\<close>

definition status_step :: "(json \<Rightarrow> string) \<Rightarrow> biostar \<Rightarrow> device \<Rightarrow> (py_error + snapshot) \<times> biostar" where
  "status_step repr self dev =
     (case async_get_status_data self dev of
        None \<Rightarrow> (Inr [], self)
      | Some status_data \<Rightarrow>
          if truthy status_data then use_status_data repr status_data self
          else (Inr [], self))"

text \<open>The refresh: its outcome and the client afterwards.\<close>

definition async_get_data :: "(json \<Rightarrow> string) \<Rightarrow> biostar \<Rightarrow> device \<Rightarrow> (py_error + snapshot) \<times> biostar" where
  "async_get_data repr self dev =
     (case status_step repr self dev of
        (Inl e, self') \<Rightarrow> (Inl e, self')
      | (Inr result, self') \<Rightarrow> (merge_step (async_get_legacy_data self' dev) result, self'))"

subsection \<open>Write commands\<close>

definition has_write_access :: "biostar \<Rightarrow> bool" where
  "has_write_access self = (case write_key self of None \<Rightarrow> False | Some k \<Rightarrow> length k > 0)"

text \<open>\<open>"OK" in text or "ack" in text.lower()\<close>\<close>

definition text_acknowledges :: "string \<Rightarrow> bool" where
  "text_acknowledges text = (str_contains ''OK'' text \<or> str_contains ''ack'' (py_lower text))"

text \<open>
  The \<open>except Exception\<close> branch of the inner \<open>try\<close>: \<open>True\<close> when it returns
  \<open>True\<close>; \<open>None\<close> when \<open>resp.text()\<close> raises, which goes to the outer handler.
\<close>

definition text_fallback :: "body \<Rightarrow> bool option" where
  "text_fallback b =
     (case body_text b of Inl m \<Rightarrow> None | Inr text \<Rightarrow> Some (text_acknowledges text))"

text \<open>
  What the inner \<open>try\<close> finds in the decoded body: the \<open>ack\<close> field, else the
  \<open>err\<close> field (whose value \<open>status.get('err')\<close> goes to the log), else neither.
  An exception of these tests goes to the \<open>except Exception\<close> branch.
\<close>

datatype reply = Ack | Err | Neither

definition json_reply :: "json \<Rightarrow> py_error + reply" where
  "json_reply status =
     and_then (py_in ''ack'' status) (\<lambda>ack.
       if ack then Inr Ack
       else and_then (py_in ''err'' status) (\<lambda>err.
              if err then and_then (py_get status ''err'' JNull) (\<lambda>logged. Inr Err)
              else Inr Neither))"

text \<open>
  \<open>setProgram\<close>: the result and the requests sent, in order. \<open>ext_returned_True\<close>
  says that the block of the extended endpoint returned \<open>True\<close>; every other way out
  of that block (an \<open>err\<close> field, no known field, a text without acknowledgment,
  another status code, an exception) goes on to the legacy endpoint.
\<close>

definition setProgram :: "biostar \<Rightarrow> device \<Rightarrow> int \<Rightarrow> bool \<times> request list" where
  "setProgram self dev program_id =
     (if \<not> has_write_access self then (False, [])
      else
        let params = [(''syn'', ''PR001''), (''value'', str_int program_id), (''key'', the (write_key self))];
            ext = (url self ''/ext/parset.cgi'', params);
            legacy = (url self ''/parset.cgi'', params);
            ext_returned_True =
              (case dev ext of
                 TransportError m \<Rightarrow> False
               | Response code b \<Rightarrow>
                   if code = 200 then
                     (case body_json b of
                        Inl m \<Rightarrow> (case text_fallback b of None \<Rightarrow> False | Some ok \<Rightarrow> ok)
                      | Inr status \<Rightarrow>
                          (case json_reply status of
                             Inl e \<Rightarrow> (case text_fallback b of None \<Rightarrow> False | Some ok \<Rightarrow> ok)
                           | Inr Ack \<Rightarrow> True
                           | Inr Err \<Rightarrow> False
                           | Inr Neither \<Rightarrow> False))
                   else False)
        in if ext_returned_True then (True, [ext])
           else (case dev legacy of
                   TransportError m \<Rightarrow> (False, [ext, legacy])
                 | Response code b \<Rightarrow> (code = 200, [ext, legacy])))"

text \<open>
  \<open>setTemperature\<close>: \<open>str(value)\<close> of the float is \<open>repr (JFloat value)\<close>.
\<close>

definition setTemperature ::
  "(json \<Rightarrow> string) \<Rightarrow> biostar \<Rightarrow> device \<Rightarrow> int \<Rightarrow> string \<Rightarrow> pyfloat \<Rightarrow> bool \<times> request list" where
  "setTemperature repr self dev circuit_nr temp_type v =
     (if \<not> has_write_access self then (False, [])
      else
        let syn_suffix = (if temp_type = ''day'' then ''02'' else ''03'');
            syn = ''HK'' @ str_int (circuit_nr + 1) @ syn_suffix;
            params = [(''syn'', syn), (''value'', py_format repr (JFloat v)), (''key'', the (write_key self))];
            ext = (url self ''/ext/parset.cgi'', params)
        in (case dev ext of
              TransportError m \<Rightarrow> (False, [ext])
            | Response code b \<Rightarrow>
                if code = 200 then
                  (case body_json b of
                     Inl m \<Rightarrow> (case text_fallback b of None \<Rightarrow> (False, [ext]) | Some ok \<Rightarrow> (ok, [ext]))
                   | Inr status \<Rightarrow>
                       (case json_reply status of
                          Inl e \<Rightarrow> (case text_fallback b of None \<Rightarrow> (False, [ext]) | Some ok \<Rightarrow> (ok, [ext]))
                        | Inr Ack \<Rightarrow> (True, [ext])
                        | Inr Err \<Rightarrow> (False, [ext])
                        | Inr Neither \<Rightarrow> (False, [ext])))
                else (False, [ext])))"

section \<open>Auxiliary notions and example devices\<close>

definition keys :: "('k \<times> 'v) list \<Rightarrow> 'k set" where
  "keys d = fst ` set d"

text \<open>A step that keeps a property of all keys of the snapshot.\<close>

definition preserves :: "(string \<Rightarrow> bool) \<Rightarrow> (snapshot \<Rightarrow> py_error + snapshot) \<Rightarrow> bool" where
  "preserves P f = (\<forall>r r'. f r = Inr r' \<longrightarrow> (\<forall>k\<in>keys r. P k) \<longrightarrow> (\<forall>k\<in>keys r'. P k))"

text \<open>
  A device whose extended write endpoint answers 200 with \<open>{"err": "denied"}\<close> and
  whose other endpoints answer 200 with an empty text.
\<close>

definition err_device :: device where
  "err_device = (\<lambda>(u, params).
     if u = ''http://biostar.local/ext/parset.cgi''
     then Response 200 (Body (Inr (JObj [(''err'', JStr ''denied'')])) (Inr ''denied''))
     else Response 200 (Body (Inl ''no json'') (Inr [])))"

text \<open>
  A device without status endpoint whose legacy endpoints answer \<open>Betriebsstunden;h\<close>
  and \<open>inf\<close>, one line each.
\<close>

definition inf_device :: device where
  "inf_device = (\<lambda>(u, params).
     if u = ''http://biostar.local/daqdesc.cgi''
     then Response 200 (Body (Inl ''no json'') (Inr (''Betriebsstunden;h'' @ [CHR 0x0A])))
     else if u = ''http://biostar.local/daqdata.cgi''
     then Response 200 (Body (Inl ''no json'') (Inr (''inf'' @ [CHR 0x0A])))
     else TransportError ''refused'')"

text \<open>\<open>EXCLUDE_KEYWORDS\<close> of \<open>const.py\<close>\<close>

definition EXCLUDE_KEYWORDS :: "string list" where
  "EXCLUDE_KEYWORDS = [''r'' @ [e_acute] @ ''serv'' @ [e_acute], ''reserved'', ''reserviert'']"

text \<open>\<open>should_exclude_key\<close> of \<open>const.py\<close>\<close>

definition should_exclude_key :: "string \<Rightarrow> bool" where
  "should_exclude_key key =
     (let key_lower = py_lower key in list_ex (\<lambda>keyword. str_contains keyword key_lower) EXCLUDE_KEYWORDS)"

text \<open>
  Following the specification of the legacy parser: description line \<open>i\<close> is paired
  with value line \<open>i\<close>, and the pairs are processed in order, each by the loop body.
\<close>

fun legacy_pairs :: "(string \<times> string) list \<Rightarrow> snapshot \<Rightarrow> py_error + snapshot" where
  "legacy_pairs [] data = Inr data"
| "legacy_pairs ((desc, val) # rest) data =
     (case legacy_entry desc val data of Inl e \<Rightarrow> Inl e | Inr data' \<Rightarrow> legacy_pairs rest data')"

text \<open>The status payload is a JSON object that has the top-level field.\<close>

definition reports :: "json option \<Rightarrow> string \<Rightarrow> bool" where
  "reports status_data field =
     (case status_data of Some (JObj kvs) \<Rightarrow> dict_has field kvs | _ \<Rightarrow> False)"

text \<open>One refresh after the other, each against the device as it answers then.\<close>

fun refreshes :: "(json \<Rightarrow> string) \<Rightarrow> biostar \<Rightarrow> device list \<Rightarrow> biostar" where
  "refreshes repr self [] = self"
| "refreshes repr self (dev # devs) = refreshes repr (snd (async_get_data repr self dev)) devs"

text \<open>The new line character, at which the legacy texts are split.\<close>

abbreviation newline :: char where "newline \<equiv> CHR 0x0A"

text \<open>
  The legacy endpoints of the example devices: five descriptions, one of them malformed
  and two reserved, and six values.
\<close>

definition example_descriptions :: string where
  "example_descriptions =
     ''_CO2;%'' @ [newline] @ ''Reserved;'' @ [newline] @ ''no separator'' @ [newline]
       @ ''R'' @ [E_acute] @ ''SERV'' @ [E_acute] @ '';'' @ [newline]
       @ ''Betriebsstunden; h '' @ [newline]"

definition example_values :: string where
  "example_values =
     ''12.5'' @ [newline] @ ''0'' @ [newline] @ ''1'' @ [newline] @ ''2'' @ [newline]
       @ '' 1234.7'' @ [newline] @ ''AN'' @ [newline]"

definition legacy_answer :: "string \<Rightarrow> response" where
  "legacy_answer u =
     (if u = ''http://biostar.local/daqdesc.cgi''
      then Response 200 (Body (Inl ''no json'') (Inr example_descriptions))
      else if u = ''http://biostar.local/daqdata.cgi''
      then Response 200 (Body (Inl ''no json'') (Inr example_values))
      else TransportError ''refused'')"

text \<open>A device with the legacy endpoints only.\<close>

definition legacy_device :: device where
  "legacy_device = (\<lambda>(u, params). legacy_answer u)"

text \<open>
  A device whose status endpoint answers \<open>{"co2": 9, "heat_circ": [{"name": "Main",
  "day_temp": 21}]}\<close>, with the same legacy endpoints.
\<close>

definition status_device :: device where
  "status_device = (\<lambda>(u, params).
     if u = ''http://biostar.local/status.cgi''
     then Response 200
            (Body (Inr (JObj [(''co2'', JInt 9),
                              (''heat_circ'', JArr [JObj [(''name'', JStr ''Main''), (''day_temp'', JInt 21)]])]))
                  (Inl ''not read''))
     else legacy_answer u)"

text \<open>The same status endpoint, with legacy endpoints that answer 404.\<close>

definition status_only_device :: device where
  "status_only_device = (\<lambda>(u, params).
     if u = ''http://biostar.local/status.cgi''
     then Response 200
            (Body (Inr (JObj [(''co2'', JInt 9),
                              (''heat_circ'', JArr [JObj [(''name'', JStr ''Main''), (''day_temp'', JInt 21)]])]))
                  (Inl ''not read''))
     else Response 404 (Body (Inl ''no json'') (Inr [])))"

text \<open>A device on which every request fails.\<close>

definition dead_device :: device where
  "dead_device = (\<lambda>(u, params). TransportError ''refused'')"

text \<open>A device whose status endpoint answers \<open>{}\<close>, with the same legacy endpoints.\<close>

definition empty_status_device :: device where
  "empty_status_device = (\<lambda>(u, params).
     if u = ''http://biostar.local/status.cgi''
     then Response 200 (Body (Inr (JObj [])) (Inl ''not read''))
     else legacy_answer u)"

text \<open>
  A device whose status endpoint answers \<open>{"meta": null}\<close>, with the same legacy
  endpoints.
\<close>

definition null_meta_device :: device where
  "null_meta_device = (\<lambda>(u, params).
     if u = ''http://biostar.local/status.cgi''
     then Response 200 (Body (Inr (JObj [(''meta'', JNull)])) (Inl ''not read''))
     else legacy_answer u)"

text \<open>A client without write key, and one that has cached values of an earlier refresh.\<close>

definition client :: biostar where
  "client = init ''key'' ''biostar.local'' None"

definition cached_client :: biostar where
  "cached_client =
     client \<lparr> device_info := JObj [(''typ'', JStr ''BS'')],
              heating_circuits := JArr [JObj [(''nr'', JInt 0)]],
              heat_constraints := JObj [(''min'', JInt 10), (''max'', JInt 25), (''inc'', JInt 1)] \<rparr>"

text \<open>\<open>unitOfMeasurement.strip() or None\<close>\<close>

definition line_unit :: "string \<Rightarrow> string option" where
  "line_unit u = (if py_strip u = [] then None else Some (py_strip u))"

text \<open>
  A device whose legacy texts do not end with a new line: \<open>A;%\<close>, \<open>B;%\<close> and
  \<open>1\<close>, \<open>2\<close>.
\<close>

definition unterminated_device :: device where
  "unterminated_device = (\<lambda>(u, params).
     if u = ''http://biostar.local/daqdesc.cgi''
     then Response 200 (Body (Inl ''no json'') (Inr (''A;%'' @ [newline] @ ''B;%'')))
     else if u = ''http://biostar.local/daqdata.cgi''
     then Response 200 (Body (Inl ''no json'') (Inr (''1'' @ [newline] @ ''2'')))
     else TransportError ''refused'')"

section \<open>Write commands: properties\<close>

text \<open>
  C3. Without a write credential (\<open>has_write_access\<close> false: no key, or the empty
  key), \<open>setProgram\<close> and \<open>setTemperature\<close> return \<open>False\<close> and send no request,
  whatever the device would answer.
\<close>

theorem write_gating:
  "\<not> has_write_access self \<Longrightarrow>
     setProgram self dev program_id = (False, []) \<and>
     setTemperature repr self dev circuit_nr temp_type v = (False, [])"
  by (simp add: setProgram_def setTemperature_def)

theorem write_gating_witness:
  "\<not> has_write_access (init ''key'' ''biostar.local'' None) \<and>
   \<not> has_write_access (init ''key'' ''biostar.local'' (Some [])) \<and>
   setProgram (init ''key'' ''biostar.local'' None)
     (\<lambda>r. Response 200 (Body (Inr (JObj [(''ack'', JStr [])])) (Inr ''OK''))) 2 = (False, []) \<and>
   setTemperature (\<lambda>x. ''21.5'') (init ''key'' ''biostar.local'' (Some []))
     (\<lambda>r. Response 200 (Body (Inr (JObj [(''ack'', JStr [])])) (Inr ''OK'')))
     0 ''day'' (Finite (43 / 2)) = (False, [])"
proof -
  have a: "\<not> has_write_access (init ''key'' ''biostar.local'' None)"
    by (simp add: has_write_access_def init_def)
  have b: "\<not> has_write_access (init ''key'' ''biostar.local'' (Some []))"
    by (simp add: has_write_access_def init_def)
  show ?thesis
    using a b write_gating [OF a] write_gating [OF b] by simp
qed

text \<open>
  C5. The claim is that an \<open>err\<close> field in the answer of \<open>/ext/parset.cgi\<close> makes
  \<open>setProgram\<close> return failure without trying \<open>/parset.cgi\<close>. The code only logs the
  \<open>err\<close> field and goes on: at \<open>err_device\<close> it sends the second request and returns
  \<open>True\<close>.
\<close>

theorem setProgram_err_falls_back:
  "setProgram (init ''key'' ''biostar.local'' (Some ''secret'')) err_device 2 =
     (True,
      [(''http://biostar.local/ext/parset.cgi'',
          [(''syn'', ''PR001''), (''value'', ''2''), (''key'', ''secret'')]),
       (''http://biostar.local/parset.cgi'',
          [(''syn'', ''PR001''), (''value'', ''2''), (''key'', ''secret'')])])"
  by code_simp

text \<open>
  The sibling \<open>setTemperature\<close> returns \<open>False\<close> at the same answer, after the one
  request.
\<close>

lemma setTemperature_err_returns_False:
  "setTemperature (\<lambda>x. ''21.5'') (init ''key'' ''biostar.local'' (Some ''secret'')) err_device
     0 ''day'' (Finite (43 / 2)) =
     (False,
      [(''http://biostar.local/ext/parset.cgi'',
          [(''syn'', ''HK102''), (''value'', ''21.5''), (''key'', ''secret'')])])"
  by code_simp

section \<open>The legacy parser: properties\<close>

text \<open>
  C6. The claim is that no single value aborts the parse and that a value which does not
  parse under unit \<open>d\<close> or \<open>h\<close> is kept as the raw string. The value \<open>inf\<close> with
  unit \<open>h\<close> raises \<open>OverflowError\<close> in \<open>int(float(raw_value))\<close>, which
  \<open>except ValueError\<close> does not catch: the legacy parse and the refresh end with it.
\<close>

theorem legacy_inf_aborts:
  "coerce_value ''inf'' (Some ''h'') = Inl OverflowError \<and>
   async_get_legacy_data (init ''key'' ''biostar.local'' None) inf_device = Inl OverflowError \<and>
   fst (async_get_data (\<lambda>x. []) (init ''key'' ''biostar.local'' None) inf_device) = Inl OverflowError"
  by code_simp

section \<open>Lemmas on dictionaries and on the status parser\<close>

lemma map_of_dict_set: "map_of (dict_set k v d) = (map_of d)(k \<mapsto> v)"
  by (induction d) (auto simp: fun_eq_iff)

lemma keys_dict_set: "keys (dict_set k v d) = insert k (keys d)"
  by (induction d) (auto simp: keys_def)

lemma keys_Nil: "keys [] = {}"
  by (simp add: keys_def)

lemma dict_has_keys: "dict_has k d \<longleftrightarrow> k \<in> keys d"
  by (simp add: dict_has_def keys_def map_of_eq_None_iff)

lemma map_of_merge_legacy:
  "map_of (merge_legacy legacy_data result) k =
     (case map_of result k of Some v \<Rightarrow> Some v | None \<Rightarrow> map_of legacy_data k)"
proof (induction legacy_data arbitrary: result)
  case Nil
  then show ?case by (simp split: option.split)
next
  case (Cons p rest)
  obtain key v where p: "p = (key, v)" by (cases p)
  show ?case
    unfolding p
    by (simp add: Cons.IH map_of_dict_set dict_has_def split: option.split)
qed

lemma keys_merge_legacy: "keys (merge_legacy legacy_data result) = keys legacy_data \<union> keys result"
proof (induction legacy_data arbitrary: result)
  case Nil
  then show ?case by (simp add: keys_Nil)
next
  case (Cons p rest)
  obtain key v where p: "p = (key, v)" by (cases p)
  show ?case
    unfolding p
    by (auto simp: Cons.IH keys_dict_set dict_has_keys) (auto simp: keys_def)
qed

lemma preservesD: "preserves P f \<Longrightarrow> f r = Inr r' \<Longrightarrow> \<forall>k\<in>keys r. P k \<Longrightarrow> \<forall>k\<in>keys r'. P k"
  unfolding preserves_def by blast

lemma preserves_seq_steps:
  "(\<forall>f\<in>set fs. preserves P f) \<Longrightarrow> preserves P (seq_steps fs)"
proof (induction fs)
  case Nil
  then show ?case by (simp add: preserves_def)
next
  case (Cons f fs)
  then have f: "preserves P f" and fs: "preserves P (seq_steps fs)" by simp_all
  show ?case
    unfolding preserves_def
  proof (intro allI impI)
    fix r r'
    assume run: "seq_steps (f # fs) r = Inr r'" and ok: "\<forall>k\<in>keys r. P k"
    from run obtain r1 where r1: "f r = Inr r1" and rest: "seq_steps fs r1 = Inr r'"
      by (auto split: sum.splits)
    from preservesD [OF f r1 ok] have "\<forall>k\<in>keys r1. P k" .
    from preservesD [OF fs rest this] show "\<forall>k\<in>keys r'. P k" .
  qed
qed

lemma preserves_store_field: "P key \<Longrightarrow> preserves P (store_field data field key u)"
  by (auto simp: preserves_def store_field_def and_then_def keys_dict_set split: sum.splits if_splits)

lemma preserves_meta_steps:
  "(\<And>k. starts_with ''_'' k \<Longrightarrow> P k) \<Longrightarrow> \<forall>f\<in>set (meta_steps meta). preserves P f"
  unfolding meta_steps_def list.set ball_simps
  by (intro conjI TrueI preserves_store_field; simp)

lemma preserves_store_meta:
  assumes "\<And>k. starts_with ''_'' k \<Longrightarrow> P k"
  shows "preserves P (store_meta data)"
  unfolding preserves_def
proof (intro allI impI)
  fix r r'
  assume run: "store_meta data r = Inr r'" and ok: "\<forall>k\<in>keys r. P k"
  from run have "r' = r \<or> (\<exists>meta. seq_steps (meta_steps meta) r = Inr r')"
    by (auto simp: store_meta_def and_then_def split: sum.splits if_splits)
  then show "\<forall>k\<in>keys r'. P k"
    using ok preservesD [OF preserves_seq_steps [OF preserves_meta_steps [of P]]] assms by blast
qed

lemma preserves_heat_circuit_steps:
  "(\<And>k. starts_with ''_'' k \<Longrightarrow> P k) \<Longrightarrow>
     \<forall>f\<in>set (heat_circuit_steps (''_Circuit '' @ name) circuit). preserves P f"
  unfolding heat_circuit_steps_def list.set ball_simps
  by (intro conjI TrueI preserves_store_field; simp)

lemma preserves_water_circuit_steps:
  "(\<And>k. starts_with ''_'' k \<Longrightarrow> P k) \<Longrightarrow>
     \<forall>f\<in>set (water_circuit_steps (''_ECS '' @ name) circuit). preserves P f"
  unfolding water_circuit_steps_def list.set ball_simps
  by (intro conjI TrueI preserves_store_field; simp)

lemma preserves_heat_circ_loop:
  assumes "\<And>k. starts_with ''_'' k \<Longrightarrow> P k"
  shows "preserves P (heat_circ_loop repr cs)"
proof (induction cs)
  case Nil
  then show ?case by (simp add: preserves_def)
next
  case (Cons c cs)
  obtain i circuit where c: "c = (i, circuit)" by (cases c)
  show ?case
    unfolding preserves_def c
  proof (intro allI impI)
    fix r r'
    assume run: "heat_circ_loop repr ((i, circuit) # cs) r = Inr r'" and ok: "\<forall>k\<in>keys r. P k"
    from run obtain name r1 where
      steps: "seq_steps (heat_circuit_steps (''_Circuit '' @ name) circuit) r = Inr r1"
      and rest: "heat_circ_loop repr cs r1 = Inr r'"
      by (auto simp: and_then_def split: sum.splits)
    from preservesD [OF preserves_seq_steps [OF preserves_heat_circuit_steps [of P]] steps ok] assms
    have "\<forall>k\<in>keys r1. P k" by blast
    from preservesD [OF Cons.IH rest this] show "\<forall>k\<in>keys r'. P k" .
  qed
qed

lemma preserves_water_circ_loop:
  assumes "\<And>k. starts_with ''_'' k \<Longrightarrow> P k"
  shows "preserves P (water_circ_loop repr cs)"
proof (induction cs)
  case Nil
  then show ?case by (simp add: preserves_def)
next
  case (Cons c cs)
  obtain i circuit where c: "c = (i, circuit)" by (cases c)
  show ?case
    unfolding preserves_def c
  proof (intro allI impI)
    fix r r'
    assume run: "water_circ_loop repr ((i, circuit) # cs) r = Inr r'" and ok: "\<forall>k\<in>keys r. P k"
    from run obtain name r1 where
      steps: "seq_steps (water_circuit_steps (''_ECS '' @ name) circuit) r = Inr r1"
      and rest: "water_circ_loop repr cs r1 = Inr r'"
      by (auto simp: and_then_def split: sum.splits)
    from preservesD [OF preserves_seq_steps [OF preserves_water_circuit_steps [of P]] steps ok] assms
    have "\<forall>k\<in>keys r1. P k" by blast
    from preservesD [OF Cons.IH rest this] show "\<forall>k\<in>keys r'. P k" .
  qed
qed

lemma preserves_store_circuits:
  "(\<And>cs. preserves P (loop cs)) \<Longrightarrow> preserves P (store_circuits data field loop)"
  unfolding preserves_def store_circuits_def
  by (auto simp: and_then_def split: sum.splits if_splits)

lemma error_loop_keys:
  "(\<And>k. starts_with ''_'' k \<Longrightarrow> P k) \<Longrightarrow> \<forall>k\<in>keys r. P k \<Longrightarrow> \<forall>k\<in>keys (error_loop repr es r). P k"
proof (induction es arbitrary: r)
  case Nil
  then show ?case by simp
next
  case (Cons e es)
  obtain i err where e: "e = (i, err)" by (cases e)
  have "\<forall>k\<in>keys (dict_set (''_Erreur '' @ str_int i) (JStr (py_format repr err), None) r). P k"
    using Cons.prems by (auto simp: keys_dict_set)
  from Cons.IH [OF Cons.prems(1) this] show ?case
    unfolding e by simp
qed

lemma preserves_store_errors:
  assumes "\<And>k. starts_with ''_'' k \<Longrightarrow> P k"
  shows "preserves P (store_errors repr data)"
  unfolding preserves_def
proof (intro allI impI)
  fix r r'
  assume run: "store_errors repr data r = Inr r'" and ok: "\<forall>k\<in>keys r. P k"
  have base: "\<forall>k\<in>keys (dict_set ''_Erreurs actives'' (JInt n, None) r). P k" for n
    using ok assms by (auto simp: keys_dict_set)
  from run have "r' = r \<or> (\<exists>es n. r' = error_loop repr es (dict_set ''_Erreurs actives'' (JInt n, None) r))"
    by (auto simp: store_errors_def and_then_def split: sum.splits if_splits)
  then show "\<forall>k\<in>keys r'. P k"
    using ok error_loop_keys [OF assms base] by auto
qed

lemma preserves_status_steps:
  "(\<And>k. starts_with ''_'' k \<Longrightarrow> P k) \<Longrightarrow> \<forall>f\<in>set (status_steps repr data). preserves P f"
  unfolding status_steps_def list.set ball_simps
  by (intro conjI TrueI preserves_store_field preserves_store_meta preserves_store_circuits
         preserves_heat_circ_loop preserves_water_circ_loop preserves_store_errors; simp)

lemma parse_status_data_keys:
  assumes "parse_status_data repr data = Inr result" and "\<And>k. starts_with ''_'' k \<Longrightarrow> P k"
  shows "\<forall>k\<in>keys result. P k"
  using preservesD [OF preserves_seq_steps [OF preserves_status_steps [of P]], of repr data "[]" result]
    assms
  by (simp add: parse_status_data_def keys_Nil)

section \<open>Lemmas on the legacy parser\<close>

lemma legacy_loop_drop:
  "legacy_loop ds vs [k ..< min (length ds) (length vs)] data = legacy_pairs (drop k (zip ds vs)) data"
proof (induction "min (length ds) (length vs) - k" arbitrary: k data)
  case 0
  then show ?case by simp
next
  case (Suc n)
  then have k: "k < min (length ds) (length vs)" by linarith
  then have kz: "k < length (zip ds vs)" by simp
  have upt: "[k ..< min (length ds) (length vs)] = k # [Suc k ..< min (length ds) (length vs)]"
    using k by (simp add: upt_conv_Cons)
  have drp: "drop k (zip ds vs) = (ds ! k, vs ! k) # drop (Suc k) (zip ds vs)"
    using kz by (metis Cons_nth_drop_Suc nth_zip k min_less_iff_conj)
  have n: "n = min (length ds) (length vs) - Suc k"
    using Suc.hyps(2) by linarith
  show ?case
    unfolding upt drp
    by (simp add: Suc.hyps(1) [OF n] split: sum.split)
qed

lemma parse_legacy_zip: "parse_legacy ds vs = legacy_pairs (zip ds vs) []"
proof (cases "ds \<noteq> [] \<and> vs \<noteq> []")
  case True
  then show ?thesis
    using legacy_loop_drop [of ds vs 0 "[]"] by (simp add: parse_legacy_def)
next
  case False
  then have "zip ds vs = []" by auto
  with False show ?thesis by (auto simp: parse_legacy_def)
qed

lemma legacy_pairs_append:
  "legacy_pairs (xs @ ys) data =
     (case legacy_pairs xs data of Inl e \<Rightarrow> Inl e | Inr data' \<Rightarrow> legacy_pairs ys data')"
proof (induction xs arbitrary: data)
  case Nil
  then show ?case by simp
next
  case (Cons p xs)
  obtain d v where p: "p = (d, v)" by (cases p)
  show ?case unfolding p by (simp add: Cons.IH split: sum.split)
qed

lemma legacy_entry_malformed: "split_description desc = None \<Longrightarrow> legacy_entry desc val data = Inr data"
  by (simp add: legacy_entry_def)

lemma split_description_None: "split_description line = None \<longleftrightarrow> length (py_split (CHR '';'') line) \<noteq> 2"
proof -
  have "(case xs of [k, u] \<Rightarrow> Some (k, u) | _ \<Rightarrow> None) = None \<longleftrightarrow> length xs \<noteq> 2" for xs :: "string list"
    by (cases xs rule: list.exhaust; simp split: list.split) 
  then show ?thesis by (simp add: split_description_def)
qed

lemma parse_legacy_skip:
  assumes "split_description desc = None" and "length pre_d = length pre_v"
  shows "parse_legacy (pre_d @ desc # post_d) (pre_v @ val # post_v) = parse_legacy (pre_d @ post_d) (pre_v @ post_v)"
  using assms
  by (simp add: parse_legacy_zip legacy_pairs_append legacy_entry_malformed split: sum.split)

lemma parse_legacy_take:
  "parse_legacy ds vs = parse_legacy (take (min (length ds) (length vs)) ds) (take (min (length ds) (length vs)) vs)"
  by (simp add: parse_legacy_zip flip: take_zip)

lemma legacy_entry_keys:
  assumes "legacy_entry desc val data = Inr data'" and "\<forall>k\<in>keys data. py_lower k \<notin> set reserved_keys"
  shows "\<forall>k\<in>keys data'. py_lower k \<notin> set reserved_keys"
  using assms
  by (auto simp: legacy_entry_def and_then_def Let_def keys_dict_set split: option.splits if_splits sum.splits)

lemma legacy_pairs_keys:
  "legacy_pairs ps data = Inr data' \<Longrightarrow> \<forall>k\<in>keys data. py_lower k \<notin> set reserved_keys \<Longrightarrow>
     \<forall>k\<in>keys data'. py_lower k \<notin> set reserved_keys"
proof (induction ps arbitrary: data)
  case Nil
  then show ?case by simp
next
  case (Cons p ps)
  obtain d v where p: "p = (d, v)" by (cases p)
  from Cons.prems(1) obtain d1 where e: "legacy_entry d v data = Inr d1" and r: "legacy_pairs ps d1 = Inr data'"
    unfolding p by (auto split: sum.splits)
  from Cons.IH [OF r legacy_entry_keys [OF e Cons.prems(2)]] show ?case .
qed

lemma async_get_legacy_data_parse:
  "async_get_legacy_data self dev = Inr d \<Longrightarrow> \<exists>ds vs. parse_legacy ds vs = Inr d"
  by (auto simp: async_get_legacy_data_def and_then_def split: sum.splits)

lemma async_get_legacy_data_keys:
  assumes "async_get_legacy_data self dev = Inr d"
  shows "\<forall>k\<in>keys d. py_lower k \<notin> set reserved_keys"
proof -
  from async_get_legacy_data_parse [OF assms] obtain ds vs where "legacy_pairs (zip ds vs) [] = Inr d"
    by (auto simp: parse_legacy_zip)
  from legacy_pairs_keys [OF this] show ?thesis by (simp add: keys_Nil)
qed

section \<open>Lemmas on the refresh\<close>

lemma lower_char_underscore: "lower_char (CHR ''_'') = CHR ''_''"
  by (simp add: lower_char_def)

lemma lower_underscore: "starts_with ''_'' k \<Longrightarrow> py_lower k \<notin> set reserved_keys"
  by (cases k) (auto simp: py_lower_def lower_char_underscore reserved_keys_def)

lemma reserved_keys_eq: "set reserved_keys = set EXCLUDE_KEYWORDS"
  by (auto simp: reserved_keys_def EXCLUDE_KEYWORDS_def)

lemma status_step_keys:
  assumes "status_step repr self dev = (Inr result, self')" and "\<And>k. starts_with ''_'' k \<Longrightarrow> P k"
  shows "\<forall>k\<in>keys result. P k"
proof -
  from assms(1) have "result = [] \<or> (\<exists>data. parse_status_data repr data = Inr result)"
    by (auto simp: status_step_def use_status_data_def split: option.splits if_splits prod.splits)
  then show ?thesis
    using parse_status_data_keys [of repr _ result P] assms(2) by (auto simp: keys_Nil)
qed

lemma async_get_data_Inr:
  assumes "async_get_data repr self dev = (Inr snapshot, self')"
  obtains result where "status_step repr self dev = (Inr result, self')"
    and "merge_step (async_get_legacy_data self' dev) result = Inr snapshot"
  using assms by (auto simp: async_get_data_def split: prod.splits sum.splits)

lemma merge_step_cases:
  assumes "merge_step legacy result = Inr snapshot"
  shows "(\<exists>legacy_data. legacy = Inr legacy_data \<and> snapshot = merge_legacy legacy_data result)
           \<or> ((\<exists>m. legacy = Inl (UpdateFailed m)) \<and> result \<noteq> [] \<and> snapshot = result)"
  using assms by (auto simp: merge_step_def split: sum.splits py_error.splits if_splits)

section \<open>The legacy parser: line pairing\<close>

lemma legacy_entry_result:
  assumes "legacy_entry desc val data = Inr data'"
  shows "(split_description desc = None \<and> data' = data)
       \<or> (\<exists>k u. split_description desc = Some (k, u) \<and> py_lower k \<in> set reserved_keys \<and> data' = data)
       \<or> (\<exists>k u x. split_description desc = Some (k, u) \<and> py_lower k \<notin> set reserved_keys
              \<and> coerce_value (py_strip val) (line_unit u) = Inr x
              \<and> data' = dict_set k (x, line_unit u) data)"
proof (cases "split_description desc")
  case None
  with assms show ?thesis by (simp add: legacy_entry_def)
next
  case (Some p)
  obtain k u where p: "p = (k, u)" by (cases p)
  show ?thesis
  proof (cases "py_lower k \<in> set reserved_keys")
    case True
    with assms Some p show ?thesis by (simp add: legacy_entry_def)
  next
    case False
    with assms Some p obtain x where "coerce_value (py_strip val) (line_unit u) = Inr x"
      and "data' = dict_set k (x, line_unit u) data"
      by (auto simp: legacy_entry_def Let_def line_unit_def and_then_def split: sum.splits)
    with Some p False show ?thesis by simp
  qed
qed

lemma legacy_entry_other_key:
  assumes "legacy_entry desc val data = Inr data'" and "\<forall>u. split_description desc \<noteq> Some (key, u)"
  shows "map_of data' key = map_of data key"
  using legacy_entry_result [OF assms(1)] assms(2) by (auto simp: map_of_dict_set)

lemma legacy_entry_own_key:
  assumes "legacy_entry desc val data = Inr data'" and "split_description desc = Some (key, u)"
    and "py_lower key \<notin> set reserved_keys"
  shows "\<exists>x. coerce_value (py_strip val) (line_unit u) = Inr x \<and> map_of data' key = Some (x, line_unit u)"
  using legacy_entry_result [OF assms(1)] assms(2,3) by (auto simp: map_of_dict_set)

lemma legacy_pairs_other_key:
  "legacy_pairs ps data = Inr result \<Longrightarrow>
     \<forall>j<length ps. \<forall>u. split_description (fst (ps ! j)) \<noteq> Some (key, u) \<Longrightarrow>
     map_of result key = map_of data key"
proof (induction ps arbitrary: data)
  case Nil
  then show ?case by simp
next
  case (Cons p ps)
  obtain d v where p: "p = (d, v)" by (cases p)
  from Cons.prems(1) obtain d1 where e: "legacy_entry d v data = Inr d1" and r: "legacy_pairs ps d1 = Inr result"
    unfolding p by (auto split: sum.splits)
  from Cons.prems(2) have here: "\<forall>u. split_description d \<noteq> Some (key, u)"
    unfolding p by fastforce
  from Cons.prems(2) have later: "\<forall>j<length ps. \<forall>u. split_description (fst (ps ! j)) \<noteq> Some (key, u)"
    by fastforce
  from Cons.IH [OF r later] legacy_entry_other_key [OF e here] show ?case by simp
qed

lemma legacy_pairs_last_wins:
  "legacy_pairs ps data = Inr result \<Longrightarrow> i < length ps \<Longrightarrow>
     split_description (fst (ps ! i)) = Some (key, u) \<Longrightarrow> py_lower key \<notin> set reserved_keys \<Longrightarrow>
     \<forall>j. i < j \<longrightarrow> j < length ps \<longrightarrow> (\<forall>u'. split_description (fst (ps ! j)) \<noteq> Some (key, u')) \<Longrightarrow>
     \<exists>x. coerce_value (py_strip (snd (ps ! i))) (line_unit u) = Inr x
          \<and> map_of result key = Some (x, line_unit u)"
proof (induction ps arbitrary: data i)
  case Nil
  then show ?case by simp
next
  case (Cons p ps)
  obtain d v where p: "p = (d, v)" by (cases p)
  from Cons.prems(1) obtain d1 where e: "legacy_entry d v data = Inr d1" and r: "legacy_pairs ps d1 = Inr result"
    unfolding p by (auto split: sum.splits)
  show ?case
  proof (cases i)
    case 0
    with Cons.prems(3) have sd: "split_description d = Some (key, u)"
      unfolding p by simp
    from legacy_entry_own_key [OF e sd Cons.prems(4)] obtain x where
      x: "coerce_value (py_strip v) (line_unit u) = Inr x" and m: "map_of d1 key = Some (x, line_unit u)"
      by blast
    from Cons.prems(5) 0 have "\<forall>j<length ps. \<forall>u'. split_description (fst (ps ! j)) \<noteq> Some (key, u')"
      by fastforce
    from legacy_pairs_other_key [OF r this] m x 0 show ?thesis
      unfolding p by simp
  next
    case (Suc i')
    with Cons.prems have a: "i' < length ps" and b: "split_description (fst (ps ! i')) = Some (key, u)"
      by simp_all
    from Cons.prems(5) Suc
    have c: "\<forall>j. i' < j \<longrightarrow> j < length ps \<longrightarrow> (\<forall>u'. split_description (fst (ps ! j)) \<noteq> Some (key, u'))"
      by fastforce
    from Cons.IH [OF r a b Cons.prems(4) c] Suc show ?thesis by simp
  qed
qed

lemma legacy_pairs_origin:
  "legacy_pairs ps data = Inr result \<Longrightarrow> map_of result key = Some rcd \<Longrightarrow>
     map_of data key = Some rcd
     \<or> (\<exists>i u x. i < length ps \<and> split_description (fst (ps ! i)) = Some (key, u)
            \<and> py_lower key \<notin> set reserved_keys
            \<and> coerce_value (py_strip (snd (ps ! i))) (line_unit u) = Inr x
            \<and> rcd = (x, line_unit u))"
proof (induction ps arbitrary: data)
  case Nil
  then show ?case by simp
next
  case (Cons p ps)
  obtain d v where p: "p = (d, v)" by (cases p)
  from Cons.prems(1) obtain d1 where e: "legacy_entry d v data = Inr d1" and r: "legacy_pairs ps d1 = Inr result"
    unfolding p by (auto split: sum.splits)
  from Cons.IH [OF r Cons.prems(2)]
  show ?case
  proof
    assume m: "map_of d1 key = Some rcd"
    from legacy_entry_result [OF e] m
    have "map_of data key = Some rcd
          \<or> (\<exists>u x. split_description d = Some (key, u) \<and> py_lower key \<notin> set reserved_keys
                \<and> coerce_value (py_strip v) (line_unit u) = Inr x \<and> rcd = (x, line_unit u))"
      by (auto simp: map_of_dict_set split: if_splits)
    then show ?thesis
    proof
      assume "map_of data key = Some rcd"
      then show ?thesis by simp
    next
      assume "\<exists>u x. split_description d = Some (key, u) \<and> py_lower key \<notin> set reserved_keys
                \<and> coerce_value (py_strip v) (line_unit u) = Inr x \<and> rcd = (x, line_unit u)"
      then obtain u x where "split_description (fst ((p # ps) ! 0)) = Some (key, u)"
        "py_lower key \<notin> set reserved_keys"
        "coerce_value (py_strip (snd ((p # ps) ! 0))) (line_unit u) = Inr x" "rcd = (x, line_unit u)"
        unfolding p by auto
      then have "\<exists>i u x. i < length (p # ps) \<and> split_description (fst ((p # ps) ! i)) = Some (key, u)
            \<and> py_lower key \<notin> set reserved_keys
            \<and> coerce_value (py_strip (snd ((p # ps) ! i))) (line_unit u) = Inr x
            \<and> rcd = (x, line_unit u)"
        by (intro exI [of _ 0] exI [of _ u] exI [of _ x]) simp
      then show ?thesis by simp
    qed
  next
    assume "\<exists>i u x. i < length ps \<and> split_description (fst (ps ! i)) = Some (key, u)
            \<and> py_lower key \<notin> set reserved_keys
            \<and> coerce_value (py_strip (snd (ps ! i))) (line_unit u) = Inr x
            \<and> rcd = (x, line_unit u)"
    then obtain i u x where "i < length ps" "split_description (fst (ps ! i)) = Some (key, u)"
      "py_lower key \<notin> set reserved_keys"
      "coerce_value (py_strip (snd (ps ! i))) (line_unit u) = Inr x" "rcd = (x, line_unit u)"
      by blast
    then have "\<exists>i u x. i < length (p # ps) \<and> split_description (fst ((p # ps) ! i)) = Some (key, u)
            \<and> py_lower key \<notin> set reserved_keys
            \<and> coerce_value (py_strip (snd ((p # ps) ! i))) (line_unit u) = Inr x
            \<and> rcd = (x, line_unit u)"
      by (intro exI [of _ "Suc i"] exI [of _ u] exI [of _ x]) simp
    then show ?thesis by simp
  qed
qed

lemma parse_legacy_record:
  assumes "parse_legacy ds vs = Inr result" and "i < min (length ds) (length vs)"
    and "split_description (ds ! i) = Some (key, u)" and "py_lower key \<notin> set reserved_keys"
    and "\<forall>j. i < j \<longrightarrow> j < min (length ds) (length vs) \<longrightarrow> (\<forall>u'. split_description (ds ! j) \<noteq> Some (key, u'))"
  shows "\<exists>x. coerce_value (py_strip (vs ! i)) (line_unit u) = Inr x
            \<and> map_of result key = Some (x, line_unit u)"
  using legacy_pairs_last_wins [of "zip ds vs" "[]" result i key u] assms
  by (simp add: parse_legacy_zip)

lemma parse_legacy_origin:
  assumes "parse_legacy ds vs = Inr result" and "map_of result key = Some rcd"
  shows "\<exists>i u x. i < min (length ds) (length vs) \<and> split_description (ds ! i) = Some (key, u)
            \<and> py_lower key \<notin> set reserved_keys
            \<and> coerce_value (py_strip (vs ! i)) (line_unit u) = Inr x
            \<and> rcd = (x, line_unit u)"
proof -
  from legacy_pairs_origin [of "zip ds vs" "[]" result key rcd] assms
  obtain i u x where "i < length (zip ds vs)" "split_description (fst (zip ds vs ! i)) = Some (key, u)"
    "py_lower key \<notin> set reserved_keys"
    "coerce_value (py_strip (snd (zip ds vs ! i))) (line_unit u) = Inr x" "rcd = (x, line_unit u)"
    by (auto simp: parse_legacy_zip)
  then show ?thesis
    by (intro exI [of _ i] exI [of _ u] exI [of _ x]) simp
qed

text \<open>
  C7. With both legacy endpoints answering 200 and a text, the parser works on the lines
  of each text without the last one. Description line \<open>i\<close> is paired with value line
  \<open>i\<close>, for \<open>i\<close> below the shorter length: when the parse returns, the key of a
  well-formed, not reserved description line \<open>i\<close> that no later line describes again
  has the record made of the coerced value line \<open>i\<close> and the unit of description line
  \<open>i\<close>; and every record of the result is made in this way from an index below the
  shorter length. Lines beyond that length, on either side, change nothing (not even the
  outcome being an exception or not). A description is well-formed when it splits at
  \<open>;\<close> into exactly two fields; an index whose description is not is skipped: the
  parse is that of the two lists without this index.
\<close>

theorem legacy_line_pairing:
  "(dev (url self ''/daqdesc.cgi'', [(''key'', api_key self)]) = Response 200 (Body j1 (Inr dtext)) \<longrightarrow>
    dev (url self ''/daqdata.cgi'', [(''key'', api_key self)]) = Response 200 (Body j2 (Inr vtext)) \<longrightarrow>
      async_get_legacy_data self dev =
        parse_legacy (butlast (py_split newline dtext)) (butlast (py_split newline vtext)))
   \<and> (parse_legacy ds vs = Inr result \<longrightarrow> i < min (length ds) (length vs) \<longrightarrow>
        split_description (ds ! i) = Some (key, u) \<longrightarrow> py_lower key \<notin> set reserved_keys \<longrightarrow>
        (\<forall>j. i < j \<longrightarrow> j < min (length ds) (length vs) \<longrightarrow>
              (\<forall>u'. split_description (ds ! j) \<noteq> Some (key, u'))) \<longrightarrow>
        (\<exists>x. coerce_value (py_strip (vs ! i)) (line_unit u) = Inr x
             \<and> map_of result key = Some (x, line_unit u)))
   \<and> (parse_legacy ds vs = Inr result \<longrightarrow> map_of result key' = Some rcd \<longrightarrow>
        (\<exists>i u x. i < min (length ds) (length vs) \<and> split_description (ds ! i) = Some (key', u)
             \<and> py_lower key' \<notin> set reserved_keys
             \<and> coerce_value (py_strip (vs ! i)) (line_unit u) = Inr x
             \<and> rcd = (x, line_unit u)))
   \<and> parse_legacy ds vs = legacy_pairs (zip ds vs) []
   \<and> parse_legacy ds vs =
       parse_legacy (take (min (length ds) (length vs)) ds) (take (min (length ds) (length vs)) vs)
   \<and> (split_description line = Some (k, u0) \<longleftrightarrow> py_split (CHR '';'') line = [k, u0])
   \<and> (length (py_split (CHR '';'') desc) \<noteq> 2 \<longrightarrow> length pre_d = length pre_v \<longrightarrow>
        parse_legacy (pre_d @ desc # post_d) (pre_v @ val # post_v) =
          parse_legacy (pre_d @ post_d) (pre_v @ post_v))"
proof (intro conjI impI)
  assume "dev (url self ''/daqdesc.cgi'', [(''key'', api_key self)]) = Response 200 (Body j1 (Inr dtext))"
    and "dev (url self ''/daqdata.cgi'', [(''key'', api_key self)]) = Response 200 (Body j2 (Inr vtext))"
  then show "async_get_legacy_data self dev =
        parse_legacy (butlast (py_split newline dtext)) (butlast (py_split newline vtext))"
    by (simp add: async_get_legacy_data_def fetch_legacy_def and_then_def legacy_lines_def)
next
  assume "parse_legacy ds vs = Inr result" and "i < min (length ds) (length vs)"
    and "split_description (ds ! i) = Some (key, u)" and "py_lower key \<notin> set reserved_keys"
    and "\<forall>j. i < j \<longrightarrow> j < min (length ds) (length vs) \<longrightarrow>
              (\<forall>u'. split_description (ds ! j) \<noteq> Some (key, u'))"
  then show "\<exists>x. coerce_value (py_strip (vs ! i)) (line_unit u) = Inr x
             \<and> map_of result key = Some (x, line_unit u)"
    by (rule parse_legacy_record)
next
  assume "parse_legacy ds vs = Inr result" and "map_of result key' = Some rcd"
  then show "\<exists>i u x. i < min (length ds) (length vs) \<and> split_description (ds ! i) = Some (key', u)
             \<and> py_lower key' \<notin> set reserved_keys
             \<and> coerce_value (py_strip (vs ! i)) (line_unit u) = Inr x
             \<and> rcd = (x, line_unit u)"
    by (rule parse_legacy_origin)
next
  show "parse_legacy ds vs = legacy_pairs (zip ds vs) []"
    by (rule parse_legacy_zip)
next
  show "parse_legacy ds vs =
       parse_legacy (take (min (length ds) (length vs)) ds) (take (min (length ds) (length vs)) vs)"
    by (rule parse_legacy_take)
next
  show "split_description line = Some (k, u0) \<longleftrightarrow> py_split (CHR '';'') line = [k, u0]"
    by (auto simp: split_description_def split: list.splits)
next
  assume "length (py_split (CHR '';'') desc) \<noteq> 2" and "length pre_d = length pre_v"
  then show "parse_legacy (pre_d @ desc # post_d) (pre_v @ val # post_v) =
          parse_legacy (pre_d @ post_d) (pre_v @ post_v)"
    by (simp add: parse_legacy_skip split_description_None)
qed

theorem legacy_line_pairing_witness:
  "unterminated_device (url client ''/daqdesc.cgi'', [(''key'', api_key client)]) =
     Response 200 (Body (Inl ''no json'') (Inr (''A;%'' @ [newline] @ ''B;%''))) \<and>
   unterminated_device (url client ''/daqdata.cgi'', [(''key'', api_key client)]) =
     Response 200 (Body (Inl ''no json'') (Inr (''1'' @ [newline] @ ''2''))) \<and>
   async_get_legacy_data client unterminated_device =
     parse_legacy (butlast (py_split newline (''A;%'' @ [newline] @ ''B;%'')))
       (butlast (py_split newline (''1'' @ [newline] @ ''2''))) \<and>
   async_get_legacy_data client unterminated_device = Inr [(''A'', JFloat (Finite 1), Some ''%'')] \<and>
   parse_legacy [''_CO2;%'', ''no separator'', ''Betriebsstunden; h ''] [''12.5'', ''1'', '' 1234.7'', ''AN''] =
     Inr [(''_CO2'', JFloat (Finite (25 / 2)), Some ''%''), (''Betriebsstunden'', JInt 1234, Some ''h'')] \<and>
   (0 :: nat) < min (length [''_CO2;%'', ''no separator'', ''Betriebsstunden; h ''])
                   (length [''12.5'', ''1'', '' 1234.7'', ''AN'']) \<and>
   split_description ([''_CO2;%'', ''no separator'', ''Betriebsstunden; h ''] ! 0) = Some (''_CO2'', ''%'') \<and>
   py_lower ''_CO2'' \<notin> set reserved_keys \<and>
   (\<exists>x. coerce_value (py_strip ([''12.5'', ''1'', '' 1234.7'', ''AN''] ! 0)) (line_unit ''%'') = Inr x
        \<and> map_of [(''_CO2'', JFloat (Finite (25 / 2)), Some ''%''),
                   (''Betriebsstunden'', JInt 1234, Some ''h'')] ''_CO2'' = Some (x, line_unit ''%'')) \<and>
   length (py_split (CHR '';'') ''no separator'') \<noteq> 2 \<and>
   length [''_CO2;%''] = length [''12.5''] \<and>
   parse_legacy ([''_CO2;%''] @ ''no separator'' # [''Betriebsstunden; h ''])
       ([''12.5''] @ ''1'' # ['' 1234.7'', ''AN'']) =
     parse_legacy ([''_CO2;%''] @ [''Betriebsstunden; h '']) ([''12.5''] @ ['' 1234.7'', ''AN''])"
proof -
  have h1: "unterminated_device (url client ''/daqdesc.cgi'', [(''key'', api_key client)]) =
     Response 200 (Body (Inl ''no json'') (Inr (''A;%'' @ [newline] @ ''B;%'')))"
    by (simp add: unterminated_device_def url_def client_def init_def)
  have h2: "unterminated_device (url client ''/daqdata.cgi'', [(''key'', api_key client)]) =
     Response 200 (Body (Inl ''no json'') (Inr (''1'' @ [newline] @ ''2'')))"
    by (simp add: unterminated_device_def url_def client_def init_def)
  have h3: "async_get_legacy_data client unterminated_device = Inr [(''A'', JFloat (Finite 1), Some ''%'')]"
    by code_simp
  have h4: "parse_legacy [''_CO2;%'', ''no separator'', ''Betriebsstunden; h '']
              [''12.5'', ''1'', '' 1234.7'', ''AN''] =
     Inr [(''_CO2'', JFloat (Finite (25 / 2)), Some ''%''), (''Betriebsstunden'', JInt 1234, Some ''h'')]"
    by code_simp
  have h5: "(0 :: nat) < min (length [''_CO2;%'', ''no separator'', ''Betriebsstunden; h ''])
                   (length [''12.5'', ''1'', '' 1234.7'', ''AN''])"
    by simp
  have h6: "split_description ([''_CO2;%'', ''no separator'', ''Betriebsstunden; h ''] ! 0) = Some (''_CO2'', ''%'')"
    by (simp add: split_description_def)
  have h7: "py_lower ''_CO2'' \<notin> set reserved_keys"
    by (rule lower_underscore) simp
  have s1: "split_description ''no separator'' = None"
    by (simp add: split_description_def)
  have s2: "split_description ''Betriebsstunden; h '' = Some (''Betriebsstunden'', '' h '')"
    by (simp add: split_description_def)
  have h8: "\<forall>j. 0 < j \<longrightarrow>
              j < min (length [''_CO2;%'', ''no separator'', ''Betriebsstunden; h ''])
                      (length [''12.5'', ''1'', '' 1234.7'', ''AN'']) \<longrightarrow>
              (\<forall>u'. split_description ([''_CO2;%'', ''no separator'', ''Betriebsstunden; h ''] ! j)
                       \<noteq> Some (''_CO2'', u'))"
  proof (intro allI impI)
    fix j :: nat and u'
    assume "0 < j" and "j < min (length [''_CO2;%'', ''no separator'', ''Betriebsstunden; h ''])
                      (length [''12.5'', ''1'', '' 1234.7'', ''AN''])"
    then have "j = 1 \<or> j = 2" by auto
    then show "split_description ([''_CO2;%'', ''no separator'', ''Betriebsstunden; h ''] ! j)
                       \<noteq> Some (''_CO2'', u')"
      using s1 s2 by auto
  qed
  have h9: "length (py_split (CHR '';'') ''no separator'') \<noteq> 2"
    by simp
  have h10: "length [''_CO2;%''] = length [''12.5'']"
    by simp
  note t = legacy_line_pairing [where dev = unterminated_device and self = client
      and ?j1.0 = "Inl ''no json''" and dtext = "''A;%'' @ [newline] @ ''B;%''"
      and ?j2.0 = "Inl ''no json''" and vtext = "''1'' @ [newline] @ ''2''"
      and ds = "[''_CO2;%'', ''no separator'', ''Betriebsstunden; h '']"
      and vs = "[''12.5'', ''1'', '' 1234.7'', ''AN'']"
      and result = "[(''_CO2'', JFloat (Finite (25 / 2)), Some ''%''), (''Betriebsstunden'', JInt 1234, Some ''h'')]"
      and i = 0 and key = "''_CO2''" and u = "''%''"
      and desc = "''no separator''" and pre_d = "[''_CO2;%'']"
      and pre_v = "[''12.5'']" and post_d = "[''Betriebsstunden; h '']"
      and val = "''1''" and post_v = "['' 1234.7'', ''AN'']"]
  from t h1 h2 have a: "async_get_legacy_data client unterminated_device =
     parse_legacy (butlast (py_split newline (''A;%'' @ [newline] @ ''B;%'')))
       (butlast (py_split newline (''1'' @ [newline] @ ''2'')))"
    by blast
  from t h4 h5 h6 h7 h8
  have b: "\<exists>x. coerce_value (py_strip ([''12.5'', ''1'', '' 1234.7'', ''AN''] ! 0)) (line_unit ''%'') = Inr x
        \<and> map_of [(''_CO2'', JFloat (Finite (25 / 2)), Some ''%''),
                   (''Betriebsstunden'', JInt 1234, Some ''h'')] ''_CO2'' = Some (x, line_unit ''%'')"
    by blast
  from t h9 h10
  have c: "parse_legacy ([''_CO2;%''] @ ''no separator'' # [''Betriebsstunden; h ''])
       ([''12.5''] @ ''1'' # ['' 1234.7'', ''AN'']) =
     parse_legacy ([''_CO2;%''] @ [''Betriebsstunden; h '']) ([''12.5''] @ ['' 1234.7'', ''AN''])"
    by blast
  from h1 h2 h3 h4 h5 h6 h7 h9 h10 a b c show ?thesis by blast
qed

section \<open>The refresh: keys of the snapshot\<close>

text \<open>
  C4. The legacy parser drops every key whose lower-case form is one of the reserved
  keywords; its own list holds the same words as \<open>EXCLUDE_KEYWORDS\<close>. So no key of the
  legacy data, and no key of the snapshot of a refresh, matches a reserved keyword, where
  a key matches when it equals the keyword up to case (the test of the parser).
\<close>

theorem no_reserved_key:
  "set reserved_keys = set EXCLUDE_KEYWORDS
   \<and> (async_get_legacy_data self dev = Inr legacy_data \<longrightarrow>
        (\<forall>k\<in>keys legacy_data. py_lower k \<notin> set EXCLUDE_KEYWORDS))
   \<and> (async_get_data repr self dev = (Inr snapshot, self') \<longrightarrow>
        (\<forall>k\<in>keys snapshot. py_lower k \<notin> set EXCLUDE_KEYWORDS))"
proof (intro conjI impI)
  show "set reserved_keys = set EXCLUDE_KEYWORDS"
    by (rule reserved_keys_eq)
next
  assume "async_get_legacy_data self dev = Inr legacy_data"
  from async_get_legacy_data_keys [OF this]
  show "\<forall>k\<in>keys legacy_data. py_lower k \<notin> set EXCLUDE_KEYWORDS"
    by (simp add: reserved_keys_eq)
next
  assume "async_get_data repr self dev = (Inr snapshot, self')"
  then obtain result where s1: "status_step repr self dev = (Inr result, self')"
    and m: "merge_step (async_get_legacy_data self' dev) result = Inr snapshot"
    by (rule async_get_data_Inr)
  from status_step_keys [OF s1, of "\<lambda>k. py_lower k \<notin> set reserved_keys"]
  have status: "\<forall>k\<in>keys result. py_lower k \<notin> set reserved_keys"
    by (simp add: lower_underscore)
  from merge_step_cases [OF m]
  have "\<forall>k\<in>keys snapshot. py_lower k \<notin> set reserved_keys"
  proof
    assume "\<exists>legacy_data. async_get_legacy_data self' dev = Inr legacy_data
              \<and> snapshot = merge_legacy legacy_data result"
    then obtain legacy_data where l: "async_get_legacy_data self' dev = Inr legacy_data"
      and s: "snapshot = merge_legacy legacy_data result" by blast
    from async_get_legacy_data_keys [OF l] status show ?thesis
      unfolding s keys_merge_legacy by blast
  next
    assume "(\<exists>m. async_get_legacy_data self' dev = Inl (UpdateFailed m)) \<and> result \<noteq> [] \<and> snapshot = result"
    with status show ?thesis by simp
  qed
  then show "\<forall>k\<in>keys snapshot. py_lower k \<notin> set EXCLUDE_KEYWORDS"
    by (simp add: reserved_keys_eq)
qed

theorem no_reserved_key_witness:
  "async_get_legacy_data client status_device =
     Inr [(''_CO2'', JFloat (Finite (25 / 2)), Some ''%''), (''Betriebsstunden'', JInt 1234, Some ''h'')] \<and>
   async_get_data (\<lambda>x. []) client status_device =
     (Inr [(''_CO2'', JInt 9, Some ''%''),
           (''_Circuit Main - Temp jour'', JInt 21, Some degC),
           (''Betriebsstunden'', JInt 1234, Some ''h'')],
      client\<lparr>heating_circuits := JArr [JObj [(''name'', JStr ''Main''), (''day_temp'', JInt 21)]]\<rparr>) \<and>
   py_lower ''_CO2'' \<notin> set EXCLUDE_KEYWORDS \<and>
   py_lower ''_Circuit Main - Temp jour'' \<notin> set EXCLUDE_KEYWORDS \<and>
   py_lower ''Betriebsstunden'' \<notin> set EXCLUDE_KEYWORDS"
proof -
  have h1: "async_get_legacy_data client status_device =
     Inr [(''_CO2'', JFloat (Finite (25 / 2)), Some ''%''), (''Betriebsstunden'', JInt 1234, Some ''h'')]"
    by code_simp
  have h2: "async_get_data (\<lambda>x. []) client status_device =
     (Inr [(''_CO2'', JInt 9, Some ''%''),
           (''_Circuit Main - Temp jour'', JInt 21, Some degC),
           (''Betriebsstunden'', JInt 1234, Some ''h'')],
      client\<lparr>heating_circuits := JArr [JObj [(''name'', JStr ''Main''), (''day_temp'', JInt 21)]]\<rparr>)"
    by code_simp
  from h1 h2 no_reserved_key [where self = client and dev = status_device and repr = "\<lambda>x. []"]
  have "\<forall>k\<in>keys [(''_CO2'', JInt 9, Some ''%''),
              (''_Circuit Main - Temp jour'', JInt 21, Some degC),
              (''Betriebsstunden'', JInt 1234, Some ''h'')].
      py_lower k \<notin> set EXCLUDE_KEYWORDS"
    by blast
  then have "py_lower ''_CO2'' \<notin> set EXCLUDE_KEYWORDS \<and>
   py_lower ''_Circuit Main - Temp jour'' \<notin> set EXCLUDE_KEYWORDS \<and>
   py_lower ''Betriebsstunden'' \<notin> set EXCLUDE_KEYWORDS"
    unfolding keys_def by simp
  with h1 h2 show ?thesis by blast
qed

text \<open>
  C2. When step 1 of a refresh gives the status-derived snapshot \<open>result\<close> and the
  legacy fetch gives \<open>legacy_data\<close>, the refresh returns the merge of the two, in which
  every key of \<open>result\<close> keeps the record it has in \<open>result\<close>, whatever the legacy
  data hold for it, and every other key has the record of the legacy data, if any.
\<close>

theorem merge_precedence:
  assumes "status_step repr self dev = (Inr result, self')"
    and "async_get_legacy_data self' dev = Inr legacy_data"
  shows "async_get_data repr self dev = (Inr (merge_legacy legacy_data result), self')
         \<and> (\<forall>k v. map_of result k = Some v \<longrightarrow> map_of (merge_legacy legacy_data result) k = Some v)
         \<and> (\<forall>k. map_of result k = None \<longrightarrow>
               map_of (merge_legacy legacy_data result) k = map_of legacy_data k)"
  using assms by (simp add: async_get_data_def merge_step_def map_of_merge_legacy)

theorem merge_precedence_witness:
  "status_step (\<lambda>x. []) client status_device =
     (Inr [(''_CO2'', JInt 9, Some ''%''), (''_Circuit Main - Temp jour'', JInt 21, Some degC)],
      client\<lparr>heating_circuits := JArr [JObj [(''name'', JStr ''Main''), (''day_temp'', JInt 21)]]\<rparr>) \<and>
   async_get_legacy_data
     (client\<lparr>heating_circuits := JArr [JObj [(''name'', JStr ''Main''), (''day_temp'', JInt 21)]]\<rparr>)
     status_device =
     Inr [(''_CO2'', JFloat (Finite (25 / 2)), Some ''%''), (''Betriebsstunden'', JInt 1234, Some ''h'')] \<and>
   map_of (merge_legacy
             [(''_CO2'', JFloat (Finite (25 / 2)), Some ''%''), (''Betriebsstunden'', JInt 1234, Some ''h'')]
             [(''_CO2'', JInt 9, Some ''%''), (''_Circuit Main - Temp jour'', JInt 21, Some degC)])
     ''_CO2'' = Some (JInt 9, Some ''%'') \<and>
   map_of (merge_legacy
             [(''_CO2'', JFloat (Finite (25 / 2)), Some ''%''), (''Betriebsstunden'', JInt 1234, Some ''h'')]
             [(''_CO2'', JInt 9, Some ''%''), (''_Circuit Main - Temp jour'', JInt 21, Some degC)])
     ''Betriebsstunden'' = Some (JInt 1234, Some ''h'')"
proof -
  have h1: "status_step (\<lambda>x. []) client status_device =
     (Inr [(''_CO2'', JInt 9, Some ''%''), (''_Circuit Main - Temp jour'', JInt 21, Some degC)],
      client\<lparr>heating_circuits := JArr [JObj [(''name'', JStr ''Main''), (''day_temp'', JInt 21)]]\<rparr>)"
    by code_simp
  have h2: "async_get_legacy_data
     (client\<lparr>heating_circuits := JArr [JObj [(''name'', JStr ''Main''), (''day_temp'', JInt 21)]]\<rparr>)
     status_device =
     Inr [(''_CO2'', JFloat (Finite (25 / 2)), Some ''%''), (''Betriebsstunden'', JInt 1234, Some ''h'')]"
    by code_simp
  show ?thesis
    using h1 h2 merge_precedence [OF h1 h2] by simp
qed

text \<open>
  C10. Every key of a snapshot returned by \<open>_parse_status_data\<close> begins with \<open>_\<close>.
  So a key of the legacy data that does not begin with \<open>_\<close> is not a key of the
  status-derived snapshot: when step 1 and the legacy fetch both return, the refresh
  returns a snapshot that has this key with its legacy record.
\<close>

theorem status_keys_underscore:
  "(parse_status_data repr data = Inr parsed \<longrightarrow> (\<forall>k\<in>keys parsed. starts_with ''_'' k))
   \<and> (status_step repr self dev = (Inr result, self') \<longrightarrow>
        async_get_legacy_data self' dev = Inr legacy_data \<longrightarrow>
        \<not> starts_with ''_'' key \<longrightarrow> map_of legacy_data key = Some v \<longrightarrow>
          (\<exists>snapshot. async_get_data repr self dev = (Inr snapshot, self')
             \<and> map_of snapshot key = Some v))"
proof (intro conjI impI)
  assume "parse_status_data repr data = Inr parsed"
  from parse_status_data_keys [OF this, of "starts_with ''_''"]
  show "\<forall>k\<in>keys parsed. starts_with ''_'' k" by simp
next
  assume s1: "status_step repr self dev = (Inr result, self')"
    and l: "async_get_legacy_data self' dev = Inr legacy_data"
    and k: "\<not> starts_with ''_'' key" and v: "map_of legacy_data key = Some v"
  from status_step_keys [OF s1, of "starts_with ''_''"] k have "key \<notin> keys result"
    by auto
  then have "map_of result key = None"
    by (simp add: keys_def map_of_eq_None_iff)
  with v have "map_of (merge_legacy legacy_data result) key = Some v"
    by (simp add: map_of_merge_legacy)
  with s1 l show "\<exists>snapshot. async_get_data repr self dev = (Inr snapshot, self')
             \<and> map_of snapshot key = Some v"
    by (simp add: async_get_data_def merge_step_def)
qed

theorem status_keys_underscore_witness:
  "parse_status_data (\<lambda>x. [])
     (JObj [(''co2'', JInt 9),
            (''heat_circ'', JArr [JObj [(''name'', JStr ''Main''), (''day_temp'', JInt 21)]])]) =
     Inr [(''_CO2'', JInt 9, Some ''%''), (''_Circuit Main - Temp jour'', JInt 21, Some degC)] \<and>
   starts_with ''_'' ''_CO2'' \<and> starts_with ''_'' ''_Circuit Main - Temp jour'' \<and>
   \<not> starts_with ''_'' ''Betriebsstunden'' \<and>
   (\<exists>snapshot.
      async_get_data (\<lambda>x. []) client status_device =
        (Inr snapshot,
         client\<lparr>heating_circuits := JArr [JObj [(''name'', JStr ''Main''), (''day_temp'', JInt 21)]]\<rparr>)
      \<and> map_of snapshot ''Betriebsstunden'' = Some (JInt 1234, Some ''h''))"
proof -
  have h0: "parse_status_data (\<lambda>x. [])
     (JObj [(''co2'', JInt 9),
            (''heat_circ'', JArr [JObj [(''name'', JStr ''Main''), (''day_temp'', JInt 21)]])]) =
     Inr [(''_CO2'', JInt 9, Some ''%''), (''_Circuit Main - Temp jour'', JInt 21, Some degC)]"
    by code_simp
  have h1: "status_step (\<lambda>x. []) client status_device =
     (Inr [(''_CO2'', JInt 9, Some ''%''), (''_Circuit Main - Temp jour'', JInt 21, Some degC)],
      client\<lparr>heating_circuits := JArr [JObj [(''name'', JStr ''Main''), (''day_temp'', JInt 21)]]\<rparr>)"
    by code_simp
  have h2: "async_get_legacy_data
     (client\<lparr>heating_circuits := JArr [JObj [(''name'', JStr ''Main''), (''day_temp'', JInt 21)]]\<rparr>)
     status_device =
     Inr [(''_CO2'', JFloat (Finite (25 / 2)), Some ''%''), (''Betriebsstunden'', JInt 1234, Some ''h'')]"
    by code_simp
  have h3: "\<not> starts_with ''_'' ''Betriebsstunden''"
    by simp
  have h4: "map_of [(''_CO2'', JFloat (Finite (25 / 2)), Some ''%''), (''Betriebsstunden'', JInt 1234, Some ''h'')]
              ''Betriebsstunden'' = Some (JInt 1234, Some ''h'')"
    by simp
  from h0 h1 h2 h3 h4
    status_keys_underscore [where repr = "\<lambda>x. []" and self = client and dev = status_device
      and key = "''Betriebsstunden''" and v = "(JInt 1234, Some ''h'')"
      and data = "JObj [(''co2'', JInt 9),
            (''heat_circ'', JArr [JObj [(''name'', JStr ''Main''), (''day_temp'', JInt 21)]])]"]
  have t: "(\<forall>k\<in>keys [(''_CO2'', JInt 9, Some ''%''), (''_Circuit Main - Temp jour'', JInt 21, Some degC)].
      starts_with ''_'' k) \<and>
   (\<exists>snapshot.
      async_get_data (\<lambda>x. []) client status_device =
        (Inr snapshot,
         client\<lparr>heating_circuits := JArr [JObj [(''name'', JStr ''Main''), (''day_temp'', JInt 21)]]\<rparr>)
      \<and> map_of snapshot ''Betriebsstunden'' = Some (JInt 1234, Some ''h''))"
    by blast
  then have "starts_with ''_'' ''_CO2'' \<and> starts_with ''_'' ''_Circuit Main - Temp jour''"
    unfolding keys_def by simp
  with t h0 h3 show ?thesis by blast
qed

section \<open>Lemmas on the cached values\<close>

lemma cache_steps_frame:
  assumes "run_cache (cache_steps status_data) self = (outcome, self')"
  shows "api_key self' = api_key self \<and> host self' = host self \<and> write_key self' = write_key self
         \<and> (\<not> reports (Some status_data) ''meta'' \<longrightarrow> device_info self' = device_info self)
         \<and> (\<not> reports (Some status_data) ''heat_circ'' \<longrightarrow> heating_circuits self' = heating_circuits self)
         \<and> (\<not> reports (Some status_data) ''heat_constraints'' \<longrightarrow> heat_constraints self' = heat_constraints self)"
  using assms
  by (cases status_data)
    (auto simp: cache_steps_def cache_field_def and_then_def reports_def dict_has_def
          split: sum.splits if_splits option.splits)

lemma status_step_frame:
  assumes "status_step repr self dev = (outcome, self')"
  shows "api_key self' = api_key self \<and> host self' = host self \<and> write_key self' = write_key self
         \<and> (\<not> reports (async_get_status_data self dev) ''meta'' \<longrightarrow> device_info self' = device_info self)
         \<and> (\<not> reports (async_get_status_data self dev) ''heat_circ'' \<longrightarrow>
               heating_circuits self' = heating_circuits self)
         \<and> (\<not> reports (async_get_status_data self dev) ''heat_constraints'' \<longrightarrow>
               heat_constraints self' = heat_constraints self)"
proof (cases "async_get_status_data self dev")
  case None
  with assms show ?thesis by (simp add: status_step_def)
next
  case (Some status_data)
  show ?thesis
  proof (cases "truthy status_data")
    case True
    with Some assms obtain outcome' where "run_cache (cache_steps status_data) self = (outcome', self')"
      by (auto simp: status_step_def use_status_data_def split: prod.splits option.splits)
    from cache_steps_frame [OF this] Some show ?thesis by simp
  next
    case False
    with Some assms show ?thesis by (simp add: status_step_def)
  qed
qed

lemma snd_async_get_data: "snd (async_get_data repr self dev) = snd (status_step repr self dev)"
  by (simp add: async_get_data_def split: prod.splits sum.splits)

lemma async_get_status_data_cong:
  "api_key self' = api_key self \<Longrightarrow> host self' = host self \<Longrightarrow>
     async_get_status_data self' dev = async_get_status_data self dev"
  by (simp add: async_get_status_data_def url_def)

lemma async_get_legacy_data_cong:
  "api_key self' = api_key self \<Longrightarrow> host self' = host self \<Longrightarrow>
     async_get_legacy_data self' dev = async_get_legacy_data self dev"
  by (simp add: async_get_legacy_data_def fetch_legacy_def url_def)

lemma refreshes_constraints:
  assumes "api_key self = api_key self0" and "host self = host self0"
    and "\<forall>d\<in>set devs. \<not> reports (async_get_status_data self0 d) ''heat_constraints''"
  shows "heat_constraints (refreshes repr self devs) = heat_constraints self"
  using assms
proof (induction devs arbitrary: self)
  case Nil
  then show ?case by simp
next
  case (Cons dev devs)
  obtain outcome self' where s: "status_step repr self dev = (outcome, self')"
    by (cases "status_step repr self dev")
  have same: "async_get_status_data self dev = async_get_status_data self0 dev"
    using Cons.prems(1,2) by (rule async_get_status_data_cong)
  from status_step_frame [OF s] same Cons.prems
  have f: "api_key self' = api_key self0" "host self' = host self0"
    "heat_constraints self' = heat_constraints self"
    by simp_all
  have "heat_constraints (refreshes repr self' devs) = heat_constraints self'"
    using f(1,2) Cons.prems(3) by (intro Cons.IH) simp_all
  with f(3) s show ?case by (simp add: snd_async_get_data)
qed

section \<open>Lemmas on the merge with an empty snapshot\<close>

lemma distinct_dict_set: "distinct (map fst d) \<Longrightarrow> distinct (map fst (dict_set k v d))"
proof (induction d)
  case Nil
  then show ?case by simp
next
  case (Cons p d)
  have "fst ` set (dict_set k v d) = insert k (fst ` set d)"
    using keys_dict_set [of k v d] by (simp add: keys_def)
  with Cons show ?case by auto
qed

lemma dict_set_new: "k \<notin> keys d \<Longrightarrow> dict_set k v d = d @ [(k, v)]"
  by (induction d) (auto simp: keys_def)

lemma merge_legacy_disjoint:
  "distinct (map fst legacy_data) \<Longrightarrow> keys legacy_data \<inter> keys result = {} \<Longrightarrow>
     merge_legacy legacy_data result = result @ legacy_data"
proof (induction legacy_data arbitrary: result)
  case Nil
  then show ?case by simp
next
  case (Cons p rest)
  obtain key v where p: "p = (key, v)" by (cases p)
  from Cons.prems have new: "key \<notin> keys result" and d: "distinct (map fst rest)"
    and k: "key \<notin> keys rest" and dis: "keys rest \<inter> keys result = {}"
    unfolding p by (auto simp: keys_def)
  have "keys rest \<inter> keys (result @ [(key, v)]) = {}"
    using k dis by (auto simp: keys_def)
  from Cons.IH [OF d this] new show ?case
    unfolding p by (simp add: dict_has_keys dict_set_new)
qed

lemma legacy_entry_distinct:
  "legacy_entry desc val data = Inr data' \<Longrightarrow> distinct (map fst data) \<Longrightarrow> distinct (map fst data')"
  by (auto simp: legacy_entry_def and_then_def Let_def distinct_dict_set
           split: option.splits if_splits sum.splits)

lemma legacy_pairs_distinct:
  "legacy_pairs ps data = Inr data' \<Longrightarrow> distinct (map fst data) \<Longrightarrow> distinct (map fst data')"
proof (induction ps arbitrary: data)
  case Nil
  then show ?case by simp
next
  case (Cons p ps)
  obtain d v where p: "p = (d, v)" by (cases p)
  from Cons.prems(1) obtain d1 where e: "legacy_entry d v data = Inr d1" and r: "legacy_pairs ps d1 = Inr data'"
    unfolding p by (auto split: sum.splits)
  from Cons.IH [OF r legacy_entry_distinct [OF e Cons.prems(2)]] show ?case .
qed

lemma async_get_legacy_data_distinct:
  assumes "async_get_legacy_data self dev = Inr d"
  shows "distinct (map fst d)"
proof -
  from async_get_legacy_data_parse [OF assms] obtain ds vs where "legacy_pairs (zip ds vs) [] = Inr d"
    by (auto simp: parse_legacy_zip)
  from legacy_pairs_distinct [OF this] show ?thesis by simp
qed

lemma merge_step_empty: "merge_step (async_get_legacy_data self dev) [] = async_get_legacy_data self dev"
proof (cases "async_get_legacy_data self dev")
  case (Inl e)
  then show ?thesis by (cases e) (simp_all add: merge_step_def)
next
  case (Inr d)
  from async_get_legacy_data_distinct [OF Inr] have "merge_legacy d [] = d"
    using merge_legacy_disjoint [of d "[]"] by (simp add: keys_Nil)
  with Inr show ?thesis by (simp add: merge_step_def)
qed

section \<open>The refresh: cached values, falsy payloads, failure\<close>

text \<open>
  C8. A refresh leaves the cached device metadata, heating circuits and temperature
  constraints as they were whenever the status payload does not report the field
  (\<open>meta\<close>, \<open>heat_circ\<close>, \<open>heat_constraints\<close>): there is no payload, or it is not a
  JSON object, or the object lacks the field; this also holds when the refresh ends with
  an exception. Without a payload the client is unchanged altogether. A new client has
  the constraints \<open>min\<close> 15.0, \<open>max\<close> 30.0 and step 0.5 (the key of the step is
  \<open>inc\<close>), and keeps them over any sequence of refreshes in which no payload
  reports \<open>heat_constraints\<close>.
\<close>

theorem cached_values_kept:
  "(\<not> reports (async_get_status_data self dev) ''meta'' \<longrightarrow>
      device_info (snd (async_get_data repr self dev)) = device_info self)
   \<and> (\<not> reports (async_get_status_data self dev) ''heat_circ'' \<longrightarrow>
      heating_circuits (snd (async_get_data repr self dev)) = heating_circuits self)
   \<and> (\<not> reports (async_get_status_data self dev) ''heat_constraints'' \<longrightarrow>
      heat_constraints (snd (async_get_data repr self dev)) = heat_constraints self)
   \<and> (async_get_status_data self dev = None \<longrightarrow> snd (async_get_data repr self dev) = self)
   \<and> heat_constraints (init key h wkey) =
       JObj [(''min'', JFloat (Finite 15)), (''max'', JFloat (Finite 30)), (''inc'', JFloat (Finite (1 / 2)))]
   \<and> ((\<forall>d\<in>set devs. \<not> reports (async_get_status_data (init key h wkey) d) ''heat_constraints'') \<longrightarrow>
        heat_constraints (refreshes repr (init key h wkey) devs) =
          JObj [(''min'', JFloat (Finite 15)), (''max'', JFloat (Finite 30)), (''inc'', JFloat (Finite (1 / 2)))])"
proof -
  obtain outcome self' where s: "status_step repr self dev = (outcome, self')"
    by (cases "status_step repr self dev")
  then have snd: "snd (async_get_data repr self dev) = self'"
    by (simp add: snd_async_get_data)
  have none: "async_get_status_data self dev = None \<longrightarrow> snd (async_get_data repr self dev) = self"
    by (simp add: snd_async_get_data status_step_def)
  have start: "heat_constraints (init key h wkey) =
       JObj [(''min'', JFloat (Finite 15)), (''max'', JFloat (Finite 30)), (''inc'', JFloat (Finite (1 / 2)))]"
    by (simp add: init_def default_constraints_def)
  have seq: "(\<forall>d\<in>set devs. \<not> reports (async_get_status_data (init key h wkey) d) ''heat_constraints'') \<longrightarrow>
        heat_constraints (refreshes repr (init key h wkey) devs) = heat_constraints (init key h wkey)"
    using refreshes_constraints [of "init key h wkey" "init key h wkey" devs repr] by simp
  from status_step_frame [OF s] none start seq show ?thesis
    unfolding snd by simp
qed

theorem cached_values_kept_witness:
  "\<not> reports (async_get_status_data cached_client status_device) ''meta'' \<and>
   \<not> reports (async_get_status_data cached_client status_device) ''heat_constraints'' \<and>
   \<not> reports (async_get_status_data cached_client dead_device) ''heat_circ'' \<and>
   async_get_status_data cached_client dead_device = None \<and>
   device_info (snd (async_get_data (\<lambda>x. []) cached_client status_device)) = device_info cached_client \<and>
   heat_constraints (snd (async_get_data (\<lambda>x. []) cached_client status_device)) =
     heat_constraints cached_client \<and>
   heating_circuits (snd (async_get_data (\<lambda>x. []) cached_client dead_device)) =
     heating_circuits cached_client \<and>
   snd (async_get_data (\<lambda>x. []) cached_client dead_device) = cached_client \<and>
   heat_constraints (refreshes (\<lambda>x. []) (init ''key'' ''biostar.local'' None)
                       [legacy_device, status_device, dead_device]) =
     JObj [(''min'', JFloat (Finite 15)), (''max'', JFloat (Finite 30)), (''inc'', JFloat (Finite (1 / 2)))]"
proof -
  have h1: "\<not> reports (async_get_status_data cached_client status_device) ''meta''"
    by code_simp
  have h2: "\<not> reports (async_get_status_data cached_client status_device) ''heat_constraints''"
    by code_simp
  have h3: "\<not> reports (async_get_status_data cached_client dead_device) ''heat_circ''"
    by code_simp
  have h4: "async_get_status_data cached_client dead_device = None"
    by code_simp
  have h5: "\<forall>d\<in>set [legacy_device, status_device, dead_device].
              \<not> reports (async_get_status_data (init ''key'' ''biostar.local'' None) d) ''heat_constraints''"
    by code_simp
  from h1 h2
    cached_values_kept [where self = cached_client and dev = status_device and repr = "\<lambda>x. []"]
  have a: "device_info (snd (async_get_data (\<lambda>x. []) cached_client status_device)) = device_info cached_client \<and>
   heat_constraints (snd (async_get_data (\<lambda>x. []) cached_client status_device)) =
     heat_constraints cached_client"
    by blast
  from h3 h4 h5
    cached_values_kept [where self = cached_client and dev = dead_device and repr = "\<lambda>x. []"
      and key = "''key''" and h = "''biostar.local''" and wkey = None
      and devs = "[legacy_device, status_device, dead_device]"]
  have b: "heating_circuits (snd (async_get_data (\<lambda>x. []) cached_client dead_device)) =
     heating_circuits cached_client \<and>
   snd (async_get_data (\<lambda>x. []) cached_client dead_device) = cached_client \<and>
   heat_constraints (refreshes (\<lambda>x. []) (init ''key'' ''biostar.local'' None)
                       [legacy_device, status_device, dead_device]) =
     JObj [(''min'', JFloat (Finite 15)), (''max'', JFloat (Finite 30)), (''inc'', JFloat (Finite (1 / 2)))]"
    by blast
  from h1 h2 h3 h4 a b show ?thesis by blast
qed

text \<open>
  C9. The falsy JSON values are \<open>null\<close>, \<open>false\<close>, zero, the empty string, the empty
  array and the empty object. When the status endpoint answers 200 with one of them, step
  1 gives no record and leaves the client unchanged, and the refresh returns exactly what
  the legacy fetch returns, its data or its failure: the same as against a device with
  no status endpoint and the same legacy answers.
\<close>

theorem falsy_status_as_unavailable:
  "(\<not> truthy data \<longleftrightarrow>
      data \<in> {JNull, JBool False, JInt 0, JFloat (Finite 0), JStr [], JArr [], JObj []})
   \<and> (async_get_status_data self dev = Some data \<longrightarrow> \<not> truthy data \<longrightarrow>
        status_step repr self dev = (Inr [], self)
        \<and> async_get_data repr self dev = (async_get_legacy_data self dev, self)
        \<and> (async_get_status_data self dev' = None \<longrightarrow>
             async_get_legacy_data self dev' = async_get_legacy_data self dev \<longrightarrow>
               async_get_data repr self dev = async_get_data repr self dev'))"
proof (intro conjI impI)
  show "\<not> truthy data \<longleftrightarrow>
      data \<in> {JNull, JBool False, JInt 0, JFloat (Finite 0), JStr [], JArr [], JObj []}"
    by (cases data) auto
next
  assume a: "async_get_status_data self dev = Some data" "\<not> truthy data"
  then show s: "status_step repr self dev = (Inr [], self)"
    by (simp add: status_step_def)
  then show r: "async_get_data repr self dev = (async_get_legacy_data self dev, self)"
    by (simp add: async_get_data_def merge_step_empty)
  assume "async_get_status_data self dev' = None"
    and "async_get_legacy_data self dev' = async_get_legacy_data self dev"
  then show "async_get_data repr self dev = async_get_data repr self dev'"
    unfolding r by (simp add: async_get_data_def status_step_def merge_step_empty)
qed

theorem falsy_status_as_unavailable_witness:
  "async_get_status_data client empty_status_device = Some (JObj []) \<and>
   \<not> truthy (JObj []) \<and>
   async_get_status_data client legacy_device = None \<and>
   async_get_legacy_data client legacy_device = async_get_legacy_data client empty_status_device \<and>
   status_step (\<lambda>x. []) client empty_status_device = (Inr [], client) \<and>
   async_get_data (\<lambda>x. []) client empty_status_device =
     (async_get_legacy_data client empty_status_device, client) \<and>
   async_get_data (\<lambda>x. []) client empty_status_device = async_get_data (\<lambda>x. []) client legacy_device"
proof -
  have h1: "async_get_status_data client empty_status_device = Some (JObj [])"
    by code_simp
  have h2: "\<not> truthy (JObj [])"
    by simp
  have h3: "async_get_status_data client legacy_device = None"
    by code_simp
  have h4: "async_get_legacy_data client legacy_device = async_get_legacy_data client empty_status_device"
    by code_simp
  from h1 h2 h3 h4
    falsy_status_as_unavailable [where data = "JObj []" and self = client
      and dev = empty_status_device and dev' = legacy_device and repr = "\<lambda>x. []"]
  show ?thesis by blast
qed

text \<open>
  C1. The claim is that the refresh fails only when no data survive from either source;
  the source's comment on step 2 says that the legacy data are fetched always. At
  \<open>null_meta_device\<close> the status endpoint answers 200 with \<open>{"meta": null}\<close>:
  \<open>_parse_status_data\<close> raises \<open>TypeError\<close> at \<open>"sw_version" in meta\<close>, step 2
  is not reached, and the refresh fails although the legacy fetch gives two records.
\<close>

theorem refresh_fails_with_legacy_data:
  "fst (async_get_data (\<lambda>x. []) client null_meta_device) = Inl TypeError \<and>
   async_get_legacy_data client null_meta_device =
     Inr [(''_CO2'', JFloat (Finite (25 / 2)), Some ''%''), (''Betriebsstunden'', JInt 1234, Some ''h'')]"
  by code_simp

text \<open>
  The same holds of every exception of step 1, whatever the legacy endpoints answer.
\<close>

lemma status_exception_fails_refresh:
  "status_step repr self dev = (Inl e, self') \<Longrightarrow> async_get_data repr self dev = (Inl e, self')"
  by (simp add: async_get_data_def)

text \<open>
  What holds of the failure of a refresh. The status endpoint is unavailable exactly on a
  transport failure, a status code other than 200 or a body that is no JSON; the refresh
  then returns what the legacy fetch returns, its data or its failure. When step 1 ends
  without exception, with the status-derived snapshot \<open>result\<close>: a failed legacy fetch
  (\<open>UpdateFailed\<close>) is the failure of the refresh if \<open>result\<close> is empty, and the
  refresh returns \<open>result\<close> otherwise; and if the legacy fetch raises nothing but
  \<open>UpdateFailed\<close>, the refresh fails exactly when the legacy fetch fails and
  \<open>result\<close> is empty.
\<close>

lemma refresh_failure:
  assumes "status_step repr self dev = (Inr result, self')"
  shows "(async_get_status_data self dev = None \<longleftrightarrow>
            (case dev (url self ''/status.cgi'', [(''key'', api_key self)]) of
               TransportError m \<Rightarrow> True
             | Response code b \<Rightarrow> code \<noteq> 200 \<or> isl (body_json b)))
         \<and> (async_get_status_data self dev = None \<longrightarrow>
               async_get_data repr self dev = (async_get_legacy_data self dev, self))
         \<and> (\<forall>m. async_get_legacy_data self' dev = Inl (UpdateFailed m) \<longrightarrow> result \<noteq> [] \<longrightarrow>
               async_get_data repr self dev = (Inr result, self'))
         \<and> (\<forall>m. async_get_legacy_data self' dev = Inl (UpdateFailed m) \<longrightarrow> result = [] \<longrightarrow>
               async_get_data repr self dev = (Inl (UpdateFailed m), self'))
         \<and> ((\<forall>e. async_get_legacy_data self' dev = Inl e \<longrightarrow> (\<exists>m. e = UpdateFailed m)) \<longrightarrow>
               (isl (fst (async_get_data repr self dev)) \<longleftrightarrow>
                  isl (async_get_legacy_data self' dev) \<and> result = []))"
proof (intro conjI allI impI)
  show "async_get_status_data self dev = None \<longleftrightarrow>
            (case dev (url self ''/status.cgi'', [(''key'', api_key self)]) of
               TransportError m \<Rightarrow> True
             | Response code b \<Rightarrow> code \<noteq> 200 \<or> isl (body_json b))"
    by (auto simp: async_get_status_data_def split: response.splits sum.splits)
next
  assume "async_get_status_data self dev = None"
  then show "async_get_data repr self dev = (async_get_legacy_data self dev, self)"
    by (simp add: async_get_data_def status_step_def merge_step_empty)
next
  fix m
  assume "async_get_legacy_data self' dev = Inl (UpdateFailed m)" and "result \<noteq> []"
  with assms show "async_get_data repr self dev = (Inr result, self')"
    by (simp add: async_get_data_def merge_step_def)
next
  fix m
  assume "async_get_legacy_data self' dev = Inl (UpdateFailed m)" and "result = []"
  with assms show "async_get_data repr self dev = (Inl (UpdateFailed m), self')"
    by (simp add: async_get_data_def merge_step_def)
next
  assume only: "\<forall>e. async_get_legacy_data self' dev = Inl e \<longrightarrow> (\<exists>m. e = UpdateFailed m)"
  show "isl (fst (async_get_data repr self dev)) \<longleftrightarrow>
                  isl (async_get_legacy_data self' dev) \<and> result = []"
  proof (cases "async_get_legacy_data self' dev")
    case (Inl e)
    with only obtain m where "e = UpdateFailed m" by blast
    with Inl assms show ?thesis
      by (simp add: async_get_data_def merge_step_def)
  next
    case (Inr d)
    with assms show ?thesis
      by (simp add: async_get_data_def merge_step_def)
  qed
qed

lemma refresh_failure_example:
  "status_step (\<lambda>x. []) client status_only_device =
     (Inr [(''_CO2'', JInt 9, Some ''%''), (''_Circuit Main - Temp jour'', JInt 21, Some degC)],
      client\<lparr>heating_circuits := JArr [JObj [(''name'', JStr ''Main''), (''day_temp'', JInt 21)]]\<rparr>) \<and>
   async_get_legacy_data
     (client\<lparr>heating_circuits := JArr [JObj [(''name'', JStr ''Main''), (''day_temp'', JInt 21)]]\<rparr>)
     status_only_device = Inl (UpdateFailed ''Legacy API /daqdesc.cgi returned 404'') \<and>
   [(''_CO2'', JInt 9, Some ''%''), (''_Circuit Main - Temp jour'', JInt 21, Some degC)] \<noteq> [] \<and>
   async_get_data (\<lambda>x. []) client status_only_device =
     (Inr [(''_CO2'', JInt 9, Some ''%''), (''_Circuit Main - Temp jour'', JInt 21, Some degC)],
      client\<lparr>heating_circuits := JArr [JObj [(''name'', JStr ''Main''), (''day_temp'', JInt 21)]]\<rparr>) \<and>
   \<not> isl (fst (async_get_data (\<lambda>x. []) client status_only_device)) \<and>
   status_step (\<lambda>x. []) client dead_device = (Inr [], client) \<and>
   async_get_status_data client dead_device = None \<and>
   async_get_legacy_data client dead_device =
     Inl (UpdateFailed ''Failed to fetch from legacy API: refused'') \<and>
   async_get_data (\<lambda>x. []) client dead_device =
     (Inl (UpdateFailed ''Failed to fetch from legacy API: refused''), client)"
proof -
  have h1: "status_step (\<lambda>x. []) client status_only_device =
     (Inr [(''_CO2'', JInt 9, Some ''%''), (''_Circuit Main - Temp jour'', JInt 21, Some degC)],
      client\<lparr>heating_circuits := JArr [JObj [(''name'', JStr ''Main''), (''day_temp'', JInt 21)]]\<rparr>)"
    by code_simp
  have h2: "async_get_legacy_data
     (client\<lparr>heating_circuits := JArr [JObj [(''name'', JStr ''Main''), (''day_temp'', JInt 21)]]\<rparr>)
     status_only_device = Inl (UpdateFailed ''Legacy API /daqdesc.cgi returned 404'')"
    by code_simp
  have h3: "[(''_CO2'', JInt 9, Some ''%''), (''_Circuit Main - Temp jour'', JInt 21, Some degC)] \<noteq> []"
    by simp
  have h4: "status_step (\<lambda>x. []) client dead_device = (Inr [], client)"
    by code_simp
  have h5: "async_get_status_data client dead_device = None"
    by code_simp
  have h6: "async_get_legacy_data client dead_device =
     Inl (UpdateFailed ''Failed to fetch from legacy API: refused'')"
    by code_simp
  from refresh_failure [OF h1] h2 h3
  have a: "async_get_data (\<lambda>x. []) client status_only_device =
     (Inr [(''_CO2'', JInt 9, Some ''%''), (''_Circuit Main - Temp jour'', JInt 21, Some degC)],
      client\<lparr>heating_circuits := JArr [JObj [(''name'', JStr ''Main''), (''day_temp'', JInt 21)]]\<rparr>)"
    by blast
  then have a': "\<not> isl (fst (async_get_data (\<lambda>x. []) client status_only_device))"
    by simp
  from refresh_failure [OF h4] h5 h6
  have b: "async_get_data (\<lambda>x. []) client dead_device =
     (Inl (UpdateFailed ''Failed to fetch from legacy API: refused''), client)"
    by simp
  from h1 h2 h3 h4 h5 h6 a a' b show ?thesis by blast
qed

section \<open>Further facts on the coercion and on the write fallback\<close>

lemma py_float_error: "py_float s = Inl e \<Longrightarrow> e = ValueError"
  by (auto simp: py_float_def Let_def split: option.splits prod.splits if_splits)

text \<open>
  The coercion of one value, case by case: apart from an infinity under unit \<open>d\<close> or
  \<open>h\<close> it always returns a value.
\<close>

lemma coerce_value_cases:
  "coerce_value raw u =
     (if raw \<in> {''AN'', ''ON'', ''MARCHE''} then Inr (JBool True)
      else if raw \<in> {''AUS'', ''OFF'', ''ARR'' @ [E_circ] @ ''T''} then Inr (JBool False)
      else if u = Some degC \<or> u = Some ''%'' then
        (case py_float raw of Inl e \<Rightarrow> Inr (JStr raw) | Inr x \<Rightarrow> Inr (JFloat x))
      else if u = Some ''d'' \<or> u = Some ''h'' then
        (case py_float raw of
           Inl e \<Rightarrow> Inr (JStr raw)
         | Inr (Finite q) \<Rightarrow> Inr (JInt (if 0 \<le> q then \<lfloor>q\<rfloor> else \<lceil>q\<rceil>))
         | Inr NaN \<Rightarrow> Inr (JStr raw)
         | Inr PosInf \<Rightarrow> Inl OverflowError
         | Inr NegInf \<Rightarrow> Inl OverflowError)
      else Inr (JStr raw))"
proof (cases "py_float raw")
  case (Inl e)
  with py_float_error [of raw e] show ?thesis
    by (simp add: coerce_value_def true_tokens_def false_tokens_def except_ValueError_def and_then_def)
next
  case (Inr x)
  then show ?thesis
    by (cases x)
      (simp_all add: coerce_value_def true_tokens_def false_tokens_def except_ValueError_def
         and_then_def py_int_def)
qed

lemma coerce_value_examples:
  "coerce_value ''MARCHE'' (Some ''h'') = Inr (JBool True)"
  "coerce_value (''ARR'' @ [E_circ] @ ''T'') (Some degC) = Inr (JBool False)"
  "coerce_value ''21.5'' (Some degC) = Inr (JFloat (Finite (43 / 2)))"
  "coerce_value ''foo'' (Some degC) = Inr (JStr ''foo'')"
  "coerce_value ''12.9'' (Some ''h'') = Inr (JInt 12)"
  "coerce_value ''-12.9'' (Some ''d'') = Inr (JInt (- 12))"
  "coerce_value ''nan'' (Some ''d'') = Inr (JStr ''nan'')"
  "coerce_value ''21.5'' None = Inr (JStr ''21.5'')"
  by code_simp+

text \<open>
  \<open>setProgram\<close> after an \<open>err\<close> field in a JSON object without \<open>ack\<close> field: the
  legacy endpoint is asked and decides the result.
\<close>

lemma setProgram_after_err:
  assumes "has_write_access self"
    and "params = [(''syn'', ''PR001''), (''value'', str_int program_id), (''key'', the (write_key self))]"
    and "dev (url self ''/ext/parset.cgi'', params) = Response 200 (Body (Inr (JObj kvs)) t)"
    and "\<not> dict_has ''ack'' kvs" and "dict_has ''err'' kvs"
  shows "setProgram self dev program_id =
           ((case dev (url self ''/parset.cgi'', params) of
               TransportError m \<Rightarrow> False
             | Response code b \<Rightarrow> code = 200),
            [(url self ''/ext/parset.cgi'', params), (url self ''/parset.cgi'', params)])"
  using assms
  by (simp add: setProgram_def json_reply_def and_then_def Let_def split: response.splits)

section \<open>The substring test of \<open>const.py\<close>\<close>

text \<open>
  \<open>should_exclude_key\<close> of \<open>const.py\<close> asks for a keyword inside the lower-case key.
  The legacy parser does not call it: it drops a key only when the whole lower-case key
  is a keyword. Every key the parser drops satisfies \<open>should_exclude_key\<close>, but a key
  such as \<open>Reserved 1\<close> satisfies it and stays in the legacy data.
\<close>

lemma starts_with_refl: "starts_with s s"
  by (induction s) simp_all

lemma str_contains_refl: "str_contains s s"
  by (cases s) (simp_all add: starts_with_refl)

lemma dropped_key_should_exclude:
  "py_lower key \<in> set reserved_keys \<Longrightarrow> should_exclude_key key"
  unfolding should_exclude_key_def Let_def list_ex_iff reserved_keys_eq
  by (auto intro: str_contains_refl)

lemma substring_key_is_kept:
  "should_exclude_key ''Reserved 1''"
  "parse_legacy [''Reserved 1;''] [''0''] = Inr [(''Reserved 1'', JStr ''0'', None)]"
  by code_simp+

end
